theory Spec2Isabelle
  imports Main "HOL-Library.AList" "HOL-Library.Char_ord" "HOL-Library.List_Lexorder"
begin

text \<open>
  The record store of the time tracker, its filters, the pauses of a record and the
  report of the durations of the projects, as functions on values: the records, the tree
  of the records directory on disk and the snapshot of the projects are arguments, and
  what a Go function changes is part of what its counterpart returns. The definitions
  come first; the properties of the operations follow in the last section.
\<close>

section \<open>Times and durations\<close>

text \<open>
  A Go \<^verbatim>\<open>time.Time\<close> is an instant, counted here in nanoseconds from the zero time
  (January 1 of year 1, 00:00 UTC). Instants before the zero time exist in Go, so the
  type is \<open>int\<close>. \<^verbatim>\<open>util.NoTime\<close> is the zero time, the program's marker for an
  absent end.

  A \<^verbatim>\<open>time.Duration\<close> is a signed 64-bit number of nanoseconds, here an \<open>int\<close>
  between \<open>minDuration\<close> and \<open>maxDuration\<close>. Go's \<^verbatim>\<open>+\<close> and \<^verbatim>\<open>-\<close> on durations wrap
  around in the 64 bits: \<open>add64\<close> and \<open>sub64\<close>. \<^verbatim>\<open>t.Sub(u)\<close> of the standard library
  does not wrap: a difference that does not fit is answered by the largest or the
  smallest duration.
\<close>

type_synonym time = int
type_synonym duration = int

definition NoTime :: time where
  "NoTime = 0"

definition IsZero :: "time \<Rightarrow> bool" where
  "IsZero t = (t = 0)"

definition Before :: "time \<Rightarrow> time \<Rightarrow> bool" where
  "Before t u = (t < u)"

definition After :: "time \<Rightarrow> time \<Rightarrow> bool" where
  "After t u = (t > u)"

definition minDuration :: duration where
  "minDuration = - (2 ^ 63)"

definition maxDuration :: duration where
  "maxDuration = 2 ^ 63 - 1"

definition wrap64 :: "int \<Rightarrow> duration" where
  "wrap64 x = (x + 2 ^ 63) mod 2 ^ 64 - 2 ^ 63"

definition add64 :: "duration \<Rightarrow> duration \<Rightarrow> duration" where
  "add64 a b = wrap64 (a + b)"

definition sub64 :: "duration \<Rightarrow> duration \<Rightarrow> duration" where
  "sub64 a b = wrap64 (a - b)"

definition Sub :: "time \<Rightarrow> time \<Rightarrow> duration" where
  "Sub t u =
     (if minDuration \<le> t - u \<and> t - u \<le> maxDuration then t - u
      else if Before t u then minDuration
      else maxDuration)"

section \<open>Records and pauses\<close>

record Pause =
  Start :: time
  End :: time
  Note :: string

record Record =
  Project :: string
  Start :: time
  End :: time
  Note :: string
  Tags :: "string list"
  Pause :: "Pause list"

text \<open>
  The errors of the program. \<open>PathError\<close> is Go's \<^verbatim>\<open>*os.PathError\<close>, with the
  operation that failed and the reason.
\<close>

datatype errno = ENOENT | EACCES | EISDIR | ENOTDIR | ENOTEMPTY

datatype error =
    ErrNoRecords
  | PathError string errno
  | ErrDeserialize string
  | ErrRecordNotFound
  | ErrEndBeforeStart
  | ErrPauseStartsBeforeRecord
  | ErrPauseEndsAfterRecord
  | ErrPauseNotChronological
  | ErrPausesOverlap
  | ErrPauseBeforeRecordStart
  | ErrPauseBeforePreviousEnd
  | ErrNoRunningRecord
  | ErrRecordExists
  | ErrRecordDoesNotExist
  | ErrNotInProjectTree string
  | ErrNotADirectory string
  | ErrAtoi string
  | ErrOther string

definition HasEnded :: "Record \<Rightarrow> bool" where
  "HasEnded r = (\<not> IsZero (Record.End r))"

definition IsPaused :: "Record \<Rightarrow> bool" where
  "IsPaused r =
     (length (Pause r) > 0 \<and> IsZero (Pause.End (Pause r ! (length (Pause r) - 1))))"

subsection \<open>Check\<close>

fun Check_loop :: "Record \<Rightarrow> time \<Rightarrow> time \<Rightarrow> Pause list \<Rightarrow> error option" where
  "Check_loop r prevStart prevEnd [] = None"
| "Check_loop r prevStart prevEnd (p # ps) =
     (if Before (Pause.Start p) (Record.Start r) then Some ErrPauseStartsBeforeRecord
      else if \<not> IsZero (Record.End r) \<and> After (Pause.End p) (Record.End r)
        then Some ErrPauseEndsAfterRecord
      else if After prevStart (Pause.Start p) then Some ErrPauseNotChronological
      else if After prevEnd (Pause.Start p) then Some ErrPausesOverlap
      else Check_loop r (Pause.Start p) (Pause.End p) ps)"

definition Check :: "Record \<Rightarrow> error option" where
  "Check r =
     (if \<not> IsZero (Record.End r) \<and> Before (Record.End r) (Record.Start r)
      then Some ErrEndBeforeStart
      else Check_loop r NoTime NoTime (Pause r))"

subsection \<open>InsertPause\<close>

definition InsertPause ::
  "Record \<Rightarrow> time \<Rightarrow> time \<Rightarrow> string \<Rightarrow> error + (Record \<times> Pause)" where
  "InsertPause r start end note =
     (if length (Pause r) = 0 \<and> Before start (Record.Start r)
        then Inl ErrPauseBeforeRecordStart
      else if length (Pause r) \<noteq> 0
              \<and> Before start (Pause.End (Pause r ! (length (Pause r) - 1)))
        then Inl ErrPauseBeforePreviousEnd
      else
        (let r' = r\<lparr>Pause := Pause r @ [\<lparr>Pause.Start = start, Pause.End = end, Pause.Note = note\<rparr>]\<rparr>
         in Inr (r', Pause r' ! (length (Pause r') - 1))))"

subsection \<open>StopRecord\<close>

function StopRecord_loop :: "time \<Rightarrow> Record \<Rightarrow> Record" where
  "StopRecord_loop end record =
     (if length (Pause record) > 0 then
        (let idx = length (Pause record) - 1 in
         if IsZero (Pause.End (Pause record ! idx)) \<or> After (Pause.End (Pause record ! idx)) end
         then StopRecord_loop end
                (record\<lparr>Record.End := Pause.Start (Pause record ! idx),
                        Pause := take idx (Pause record)\<rparr>)
         else record)
      else record)"
  by pat_completeness auto
termination
  by (relation "measure (\<lambda>(e, r). length (Pause r))") auto

declare StopRecord_loop.simps [simp del]

text \<open>
  \<open>StopRecord\<close> takes what \<^verbatim>\<open>t.OpenRecord()\<close> returned (an error, no record, or
  the open record) as \<open>openRecord\<close>, and the error of \<^verbatim>\<open>t.SaveRecord(record, true)\<close>
  as a function \<open>saveRecord\<close> of the record saved. It returns Go's pair of the record
  and the error. \<open>StopRecord_record\<close> is the part between the two calls: what happens
  to the record.
\<close>

definition StopRecord_record :: "time \<Rightarrow> Record \<Rightarrow> Record" where
  "StopRecord_record end record = StopRecord_loop end (record\<lparr>Record.End := end\<rparr>)"

definition StopRecord ::
  "(Record \<Rightarrow> error option) \<Rightarrow> (error + Record option) \<Rightarrow> time
     \<Rightarrow> Record option \<times> error option" where
  "StopRecord saveRecord openRecord end =
     (case openRecord of
        Inl err \<Rightarrow> (None, Some err)
      | Inr None \<Rightarrow> (None, Some ErrNoRunningRecord)
      | Inr (Some record) \<Rightarrow>
          (let record' = StopRecord_record end record
           in (Some record', saveRecord record')))"

text \<open>The test of the loop: the last pause is open, or it ends after the stop time.\<close>

definition OpenOrEndsAfter :: "time \<Rightarrow> Pause \<Rightarrow> bool" where
  "OpenOrEndsAfter end p = (IsZero (Pause.End p) \<or> After (Pause.End p) end)"

subsection \<open>Conditions of a consistent record\<close>

text \<open>
  The rules of a consistent record, stated one by one on the list of pauses:
  the pauses ordered by start (strictly, or with equal starts allowed), no pause starting
  before the pause in front of it has ended, every pause inside the span of the record.
\<close>

definition EndAbsentOrAfterStart :: "Record \<Rightarrow> bool" where
  "EndAbsentOrAfterStart r = (IsZero (Record.End r) \<or> \<not> Before (Record.End r) (Record.Start r))"

definition StrictlyOrderedByStart :: "Pause list \<Rightarrow> bool" where
  "StrictlyOrderedByStart ps = sorted_wrt (\<lambda>p q. Before (Pause.Start p) (Pause.Start q)) ps"

definition OrderedByStart :: "Pause list \<Rightarrow> bool" where
  "OrderedByStart ps = sorted_wrt (\<lambda>p q. \<not> After (Pause.Start p) (Pause.Start q)) ps"

definition StartsAfterPreviousEnd :: "Pause list \<Rightarrow> bool" where
  "StartsAfterPreviousEnd ps =
     list_all (\<lambda>(p, q). \<not> IsZero (Pause.End p) \<longrightarrow> \<not> Before (Pause.Start q) (Pause.End p))
       (zip ps (tl ps))"

definition WithinRecord :: "Record \<Rightarrow> Pause \<Rightarrow> bool" where
  "WithinRecord r p =
     (\<not> Before (Pause.Start p) (Record.Start r)
      \<and> (HasEnded r \<and> \<not> IsZero (Pause.End p) \<longrightarrow> \<not> After (Pause.End p) (Record.End r)))"

text \<open>An open pause that is not the last pause of the record.\<close>

definition OpenPauseNotLast :: "Record \<Rightarrow> bool" where
  "OpenPauseNotLast r = list_ex (\<lambda>p. IsZero (Pause.End p)) (butlast (Pause r))"

subsection \<open>Example records\<close>

text \<open>\<open>clock h m\<close> is the instant \<open>h:m\<close> of the day that begins at the zero time.\<close>

definition clock :: "int \<Rightarrow> int \<Rightarrow> time" where
  "clock h m = (h * 60 + m) * 60000000000"

definition paused_record :: Record where
  "paused_record =
     \<lparr>Project = ''work'', Start = clock 9 0, End = NoTime, Note = [], Tags = [],
      Pause = [\<lparr>Pause.Start = clock 10 0, Pause.End = NoTime, Pause.Note = []\<rparr>]\<rparr>"

definition resumed_record :: Record where
  "resumed_record =
     \<lparr>Project = ''work'', Start = clock 9 0, End = NoTime, Note = [], Tags = [],
      Pause = [\<lparr>Pause.Start = clock 9 30, Pause.End = clock 9 45, Pause.Note = []\<rparr>,
               \<lparr>Pause.Start = clock 10 0, Pause.End = NoTime, Pause.Note = []\<rparr>]\<rparr>"

definition overlapping_record :: Record where
  "overlapping_record =
     \<lparr>Project = ''work'', Start = clock 9 0, End = NoTime, Note = [], Tags = [],
      Pause = [\<lparr>Pause.Start = clock 10 0, Pause.End = clock 10 50, Pause.Note = []\<rparr>,
               \<lparr>Pause.Start = clock 10 30, Pause.End = NoTime, Pause.Note = []\<rparr>]\<rparr>"

definition same_start_record :: Record where
  "same_start_record =
     \<lparr>Project = ''work'', Start = clock 9 0, End = clock 12 0, Note = [], Tags = [],
      Pause = [\<lparr>Pause.Start = clock 10 0, Pause.End = clock 10 0, Pause.Note = []\<rparr>,
               \<lparr>Pause.Start = clock 10 0, Pause.End = clock 10 30, Pause.Note = []\<rparr>]\<rparr>"

definition closed_record :: Record where
  "closed_record =
     \<lparr>Project = ''work'', Start = clock 9 0, End = clock 11 0, Note = [], Tags = [],
      Pause = []\<rparr>"

section \<open>Projects\<close>

text \<open>
  Modelled from the spec: the \<^verbatim>\<open>Project\<close> struct is declared in a file that is not
  among the sources. The spec gives it a name (the unique key), an optional parent
  project name and an archived flag. \<open>zeroProject\<close> is its Go zero value.
\<close>

record Project =
  Name :: string
  Parent :: "string option"
  Archived :: bool

definition zeroProject :: Project where
  "zeroProject = \<lparr>Name = [], Parent = None, Archived = False\<rparr>"

text \<open>
  A Go map is an association list with lookup by \<open>map_of\<close>. Indexing a map with a
  missing key gives the zero value of the element type.
\<close>

type_synonym ('k, 'v) gomap = "('k \<times> 'v) list"

definition index_Project :: "(string, Project) gomap \<Rightarrow> string \<Rightarrow> Project" where
  "index_Project m k = (case map_of m k of None \<Rightarrow> zeroProject | Some p \<Rightarrow> p)"

section \<open>Filter predicates\<close>

type_synonym FilterFunction = "Record \<Rightarrow> bool"

fun Filter :: "Record \<Rightarrow> FilterFunction list \<Rightarrow> bool" where
  "Filter record [] = True"
| "Filter record (f # filters) = (if \<not> f record then False else Filter record filters)"

definition FilterByProjects :: "string list \<Rightarrow> FilterFunction" where
  "FilterByProjects projects =
     (let prj = fold (\<lambda>p m. m(p \<mapsto> True)) projects Map.empty
      in (\<lambda>r. prj (Project r) \<noteq> None))"

definition FilterByTime :: "time \<Rightarrow> time \<Rightarrow> FilterFunction" where
  "FilterByTime start end =
     (\<lambda>r. if IsZero (Record.End r)
          then (IsZero start \<or> After (Record.Start r) start)
               \<and> (IsZero end \<or> Before (Record.Start r) end)
          else (IsZero start \<or> After (Record.End r) start)
               \<and> (IsZero end \<or> Before (Record.Start r) end))"

definition FilterByArchived :: "bool \<Rightarrow> (string, Project) gomap \<Rightarrow> FilterFunction" where
  "FilterByArchived archived projects =
     (\<lambda>r. Archived (index_Project projects (Project r)) = archived)"

section \<open>Durations of a record\<close>

text \<open>
  Modelled from the spec: \<^verbatim>\<open>util.DurationClip\<close> is not among the sources. The spec
  has every duration optionally clipped to a window \<open>[min, max]\<close>: the interval runs from
  the start to the end, or to the current time while the end is absent; it is truncated
  to its overlap with the window, a zero bound leaving that side open; an interval that
  does not meet the window has duration zero. The current time is the argument \<open>now\<close>,
  and the difference of two times is \<^verbatim>\<open>Sub\<close> of the standard library.
\<close>

definition DurationClip :: "time \<Rightarrow> time \<Rightarrow> time \<Rightarrow> time \<Rightarrow> time \<Rightarrow> duration" where
  "DurationClip now start end tmin tmax =
     (let end1 = (if IsZero end then now else end);
          start2 = (if \<not> IsZero tmin \<and> Before start tmin then tmin else start);
          end2 = (if \<not> IsZero tmax \<and> After end1 tmax then tmax else end1)
      in if Before end2 start2 then 0 else Sub end2 start2)"

definition Pause_Duration :: "time \<Rightarrow> Pause \<Rightarrow> time \<Rightarrow> time \<Rightarrow> duration" where
  "Pause_Duration now p tmin tmax = DurationClip now (Pause.Start p) (Pause.End p) tmin tmax"

definition PauseDuration :: "time \<Rightarrow> Record \<Rightarrow> time \<Rightarrow> time \<Rightarrow> duration" where
  "PauseDuration now r tmin tmax =
     foldl (\<lambda>dur p. add64 dur (Pause_Duration now p tmin tmax)) 0 (Pause r)"

definition TotalDuration :: "time \<Rightarrow> Record \<Rightarrow> time \<Rightarrow> time \<Rightarrow> duration" where
  "TotalDuration now r tmin tmax = DurationClip now (Record.Start r) (Record.End r) tmin tmax"

definition Duration :: "time \<Rightarrow> Record \<Rightarrow> time \<Rightarrow> time \<Rightarrow> duration" where
  "Duration now r tmin tmax =
     sub64 (DurationClip now (Record.Start r) (Record.End r) tmin tmax)
           (PauseDuration now r tmin tmax)"

text \<open>
  The method \<^verbatim>\<open>Duration()\<close> without arguments, of \<^verbatim>\<open>src/core/record.go\<close>: the end, or
  the current time while the record is open, minus the start, by \<^verbatim>\<open>Sub\<close>. It is the method that
  \<^verbatim>\<open>NewReporter\<close> calls. The struct it is declared on has no pauses, and it reads none.
\<close>

definition Duration_noargs :: "time \<Rightarrow> Record \<Rightarrow> duration" where
  "Duration_noargs now r =
     (let t = (if IsZero (Record.End r) then now else Record.End r) in Sub t (Record.Start r))"

section \<open>Project tree\<close>

text \<open>
  Modelled from the spec: \<^verbatim>\<open>ToProjectTree\<close>, \<^verbatim>\<open>Ancestors\<close> and \<^verbatim>\<open>Descendants\<close>
  are not among the sources. The spec builds the tree from the flat project snapshot, an
  index from name to node with the parent and children links that the optional parent
  names give. \<open>Ancestors\<close> lists the ancestors of a name, the nearest first, and
  \<open>Descendants\<close> all its transitive children; both fail (\<open>False\<close>) for a name that is
  not in the tree. The nodes are the projects themselves. The projects form a forest, so a
  walk along the links is never longer than the number of projects, which is the fuel.
\<close>

type_synonym ProjectTree = "(string, Project) gomap"

definition ToProjectTree :: "(string, Project) gomap \<Rightarrow> ProjectTree" where
  "ToProjectTree projects = projects"

fun ancestors_from :: "nat \<Rightarrow> ProjectTree \<Rightarrow> Project \<Rightarrow> Project list" where
  "ancestors_from 0 tree p = []"
| "ancestors_from (Suc fuel) tree p =
     (case Parent p of
        None \<Rightarrow> []
      | Some name \<Rightarrow>
          (case map_of tree name of
             None \<Rightarrow> []
           | Some q \<Rightarrow> q # ancestors_from fuel tree q))"

definition Ancestors :: "ProjectTree \<Rightarrow> string \<Rightarrow> Project list \<times> bool" where
  "Ancestors tree name =
     (case map_of tree name of
        None \<Rightarrow> ([], False)
      | Some p \<Rightarrow> (ancestors_from (length tree) tree p, True))"

definition children :: "ProjectTree \<Rightarrow> string \<Rightarrow> Project list" where
  "children tree name = filter (\<lambda>q. Parent q = Some name) (map snd tree)"

fun descendants_from :: "nat \<Rightarrow> ProjectTree \<Rightarrow> string \<Rightarrow> Project list" where
  "descendants_from 0 tree name = []"
| "descendants_from (Suc fuel) tree name =
     concat (map (\<lambda>c. c # descendants_from fuel tree (Name c)) (children tree name))"

definition Descendants :: "ProjectTree \<Rightarrow> string \<Rightarrow> Project list \<times> bool" where
  "Descendants tree name =
     (case map_of tree name of
        None \<Rightarrow> ([], False)
      | Some p \<Rightarrow> (descendants_from (length tree) tree name, True))"

section \<open>Reporter\<close>

record TimeRange =
  Start :: time
  End :: time

record Reporter =
  Records :: "Record list"
  Projects :: "(string, Project) gomap"
  ProjectTime :: "(string, duration) gomap"
  AllProjects :: "(string, Project) gomap"
  ProjectsTree :: ProjectTree
  TimeRange :: TimeRange

definition index_Duration :: "(string, duration) gomap \<Rightarrow> string \<Rightarrow> duration" where
  "index_Duration m k = (case map_of m k of None \<Rightarrow> 0 | Some d \<Rightarrow> d)"

text \<open>The selection of projects: the names asked for, with all their descendants.\<close>

fun add_descendants ::
  "(string, Project) gomap \<Rightarrow> Project list \<Rightarrow> (string, Project) gomap" where
  "add_descendants projects [] = projects"
| "add_descendants projects (p2 # desc) =
     add_descendants
       (if map_of projects (Name p2) = None then AList.update (Name p2) p2 projects
        else projects) desc"

fun select_projects ::
  "(string, Project) gomap \<Rightarrow> ProjectTree \<Rightarrow> (string, Project) gomap \<Rightarrow> string list
     \<Rightarrow> error + (string, Project) gomap" where
  "select_projects allProjects projectsTree projects [] = Inr projects"
| "select_projects allProjects projectsTree projects (p # proj) =
     (let project = index_Project allProjects p;
          projects1 = AList.update (Name project) project projects
      in case Descendants projectsTree (Name project) of
           (desc, False) \<Rightarrow> Inl (ErrNotInProjectTree (Name project))
         | (desc, True) \<Rightarrow>
             select_projects allProjects projectsTree (add_descendants projects1 desc) proj)"

text \<open>The loop over the records: the accumulator of each project and the time range.\<close>

definition add_record ::
  "time \<Rightarrow> (string, duration) gomap \<times> TimeRange \<Rightarrow> Record
     \<Rightarrow> (string, duration) gomap \<times> TimeRange" where
  "add_record now acc rec =
     (let totals = fst acc; tRange = snd acc;
          totals1 = AList.update (Project rec)
                      (add64 (index_Duration totals (Project rec)) (Duration_noargs now rec))
                      totals;
          tRange1 = (if IsZero (TimeRange.Start tRange)
                        \<or> Before (Record.Start rec) (TimeRange.Start tRange)
                     then tRange\<lparr>TimeRange.Start := Record.Start rec\<rparr> else tRange);
          tRange2 =
            (if IsZero (Record.End rec)
             then (if IsZero (TimeRange.End tRange1)
                      \<or> After (Record.Start rec) (TimeRange.End tRange1)
                   then tRange1\<lparr>TimeRange.End := Record.Start rec\<rparr> else tRange1)
             else (if IsZero (TimeRange.End tRange1)
                      \<or> After (Record.End rec) (TimeRange.End tRange1)
                   then tRange1\<lparr>TimeRange.End := Record.End rec\<rparr> else tRange1))
      in (totals1, tRange2))"

text \<open>
  The loop over the totals: the total of each project, as it stands when the project is
  visited, is added to every ancestor that has a total.
\<close>

fun add_to_ancestors ::
  "(string, duration) gomap \<Rightarrow> string \<Rightarrow> Project list \<Rightarrow> (string, duration) gomap" where
  "add_to_ancestors totals project [] = totals"
| "add_to_ancestors totals project (node # anc) =
     add_to_ancestors
       (if map_of totals (Name node) \<noteq> None
        then AList.update (Name node)
               (add64 (index_Duration totals (Name node)) (index_Duration totals project))
               totals
        else totals) project anc"

fun roll_up ::
  "ProjectTree \<Rightarrow> (string, duration) gomap \<Rightarrow> string list
     \<Rightarrow> error + (string, duration) gomap" where
  "roll_up projectsTree totals [] = Inr totals"
| "roll_up projectsTree totals (project # rest) =
     (case Ancestors projectsTree project of
        (anc, False) \<Rightarrow> Inl (ErrNotInProjectTree project)
      | (anc, True) \<Rightarrow> roll_up projectsTree (add_to_ancestors totals project anc) rest)"

text \<open>
  \<open>NewReporter\<close>. The two calls on the \<^verbatim>\<open>Track\<close> are arguments: \<open>loadAllProjects\<close>
  is the outcome of \<^verbatim>\<open>t.LoadAllProjects()\<close> and \<open>loadAllRecordsFiltered\<close> is the
  function \<^verbatim>\<open>t.LoadAllRecordsFiltered\<close> on a list of filters. Go leaves the order
  in which \<^verbatim>\<open>range\<close> visits the keys of a map open: the order of the last loop, over
  \<^verbatim>\<open>totals\<close>, is the argument \<open>range_totals\<close>, which gives for the map the list of
  its keys in the order of the visit. The other iterations over maps do not depend on the
  order and follow the association list.
\<close>

definition NewReporter ::
  "time \<Rightarrow> ((string, duration) gomap \<Rightarrow> string list)
     \<Rightarrow> (error + (string, Project) gomap)
     \<Rightarrow> (FilterFunction list \<Rightarrow> error + Record list)
     \<Rightarrow> string list \<Rightarrow> FilterFunction list \<Rightarrow> error + Reporter" where
  "NewReporter now range_totals loadAllProjects loadAllRecordsFiltered proj filters =
     (case loadAllProjects of
        Inl err \<Rightarrow> Inl err
      | Inr allProjects \<Rightarrow>
          (let projectsTree = ToProjectTree allProjects in
           case (if length proj = 0 then Inr allProjects
                 else select_projects allProjects projectsTree [] proj) of
             Inl err \<Rightarrow> Inl err
           | Inr projects \<Rightarrow>
               (let filters1 = filters @ [FilterByProjects (map fst projects)] in
                case loadAllRecordsFiltered filters1 of
                  Inl err \<Rightarrow> Inl err
                | Inr records \<Rightarrow>
                    (let totals0 = foldl (\<lambda>totals p. AList.update (Name p) 0 totals) []
                                     (map snd projects);
                         acc = foldl (add_record now)
                                 (totals0, \<lparr>TimeRange.Start = NoTime, TimeRange.End = NoTime\<rparr>)
                                 records
                     in case roll_up projectsTree (fst acc) (range_totals (fst acc)) of
                          Inl err \<Rightarrow> Inl err
                        | Inr totals \<Rightarrow>
                            Inr \<lparr>Records = records, Projects = projects,
                                 ProjectTime = totals, AllProjects = allProjects,
                                 ProjectsTree = projectsTree, TimeRange = snd acc\<rparr>))))"

subsection \<open>An example: a project with two children and a grandchild\<close>

definition family :: "(string, Project) gomap" where
  "family =
     [(''P'', \<lparr>Name = ''P'', Parent = None, Archived = False\<rparr>),
      (''C1'', \<lparr>Name = ''C1'', Parent = Some ''P'', Archived = False\<rparr>),
      (''C2'', \<lparr>Name = ''C2'', Parent = Some ''P'', Archived = False\<rparr>),
      (''G'', \<lparr>Name = ''G'', Parent = Some ''C1'', Archived = False\<rparr>)]"

definition hour_of :: "string \<Rightarrow> int \<Rightarrow> Record" where
  "hour_of project h =
     \<lparr>Project = project, Start = clock h 0, End = clock (h + 1) 0, Note = [], Tags = [],
      Pause = []\<rparr>"

definition family_records :: "Record list" where
  "family_records = [hour_of ''P'' 8, hour_of ''C1'' 10, hour_of ''C2'' 12, hour_of ''G'' 14]"

definition load_from :: "Record list \<Rightarrow> FilterFunction list \<Rightarrow> error + Record list" where
  "load_from stored filters = Inr (filter (\<lambda>r. Filter r filters) stored)"

definition ProjectTime_of :: "error + Reporter \<Rightarrow> string \<Rightarrow> duration option" where
  "ProjectTime_of result name =
     (case result of Inl err \<Rightarrow> None | Inr report \<Rightarrow> map_of (ProjectTime report) name)"

definition work_only :: "(string, Project) gomap" where
  "work_only = [(''work'', \<lparr>Name = ''work'', Parent = None, Archived = False\<rparr>)]"

text \<open>
  The span of a record, from its start to its end or, while it is open, to the current
  time: the exact number of nanoseconds, which may not fit a duration. \<open>saturate64\<close> is
  the nearest duration to a number.
\<close>

definition whole_span :: "time \<Rightarrow> Record \<Rightarrow> int" where
  "whole_span now r = (if IsZero (Record.End r) then now else Record.End r) - Record.Start r"

definition saturate64 :: "int \<Rightarrow> duration" where
  "saturate64 x = (if x < minDuration then minDuration
                   else if maxDuration < x then maxDuration else x)"

text \<open>A record that lasts longer than a duration can hold, and a total close to the bound.\<close>

definition long_record :: Record where
  "long_record = \<lparr>Project = ''work'', Start = clock 9 0, End = clock 9 0 + 2 ^ 63 + 5,
                    Note = [], Tags = [], Pause = []\<rparr>"

section \<open>Record store\<close>

subsection \<open>The file system below the records directory\<close>

text \<open>
  The records directory is a tree: a file with its content, a file that the process may
  not read, or a directory with its entries by name. A path is the list of the names
  from the records directory down. The operations of Go's library on it: \<^verbatim>\<open>os.ReadFile\<close>
  and \<^verbatim>\<open>ioutil.ReadDir\<close> fail with a \<^verbatim>\<open>*os.PathError\<close>; \<^verbatim>\<open>ioutil.ReadDir\<close> lists
  the entries sorted by name, each name once; \<^verbatim>\<open>os.Remove\<close> removes a file or an empty
  directory. A path that leads nowhere fails with \<^verbatim>\<open>ENOENT\<close> where a directory lacks
  the name, and with \<^verbatim>\<open>ENOTDIR\<close> where the path goes on below a file.
\<close>

datatype node = File string | Unreadable | Dir "(string \<times> node) list"

type_synonym path = "string list"

fun IsDir :: "node \<Rightarrow> bool" where
  "IsDir (Dir entries) = True"
| "IsDir n = False"

fun lookup :: "path \<Rightarrow> node \<Rightarrow> node option" where
  "lookup [] n = Some n"
| "lookup (name # p) (Dir entries) =
     (case map_of entries name of None \<Rightarrow> None | Some child \<Rightarrow> lookup p child)"
| "lookup (name # p) n = None"

fun errno_at :: "path \<Rightarrow> node \<Rightarrow> errno" where
  "errno_at [] n = ENOENT"
| "errno_at (name # p) (Dir entries) =
     (case map_of entries name of None \<Rightarrow> ENOENT | Some child \<Rightarrow> errno_at p child)"
| "errno_at (name # p) n = ENOTDIR"

fun remove :: "path \<Rightarrow> node \<Rightarrow> node" where
  "remove [] n = n"
| "remove [name] (Dir entries) = Dir (filter (\<lambda>e. fst e \<noteq> name) entries)"
| "remove (name # p) (Dir entries) =
     Dir (map (\<lambda>e. if fst e = name then (fst e, remove p (snd e)) else e) entries)"
| "remove (name # p) n = n"

definition os_ReadFile :: "node \<Rightarrow> path \<Rightarrow> error + string" where
  "os_ReadFile fs p =
     (case lookup p fs of
        None \<Rightarrow> Inl (PathError ''open'' (errno_at p fs))
      | Some (File content) \<Rightarrow> Inr content
      | Some Unreadable \<Rightarrow> Inl (PathError ''open'' EACCES)
      | Some (Dir entries) \<Rightarrow> Inl (PathError ''read'' EISDIR))"



definition os_Remove :: "node \<Rightarrow> path \<Rightarrow> error option \<times> node" where
  "os_Remove fs p =
     (case lookup p fs of
        None \<Rightarrow> (Some (PathError ''remove'' (errno_at p fs)), fs)
      | Some (Dir (e # entries)) \<Rightarrow> (Some (PathError ''remove'' ENOTEMPTY), fs)
      | Some n \<Rightarrow> (None, remove p fs))"

text \<open>
  Modelled from the spec: the package \<^verbatim>\<open>fs\<close> is not among the sources. The spec
  names its path existence check and its check that a directory is empty.
\<close>

definition fs_FileExists :: "node \<Rightarrow> path \<Rightarrow> bool" where
  "fs_FileExists fs p = (lookup p fs \<noteq> None)"

definition fs_DirIsEmpty :: "node \<Rightarrow> path \<Rightarrow> error + bool" where
  "fs_DirIsEmpty fs p =
     (case lookup p fs of
        None \<Rightarrow> Inl (PathError ''open'' (errno_at p fs))
      | Some (Dir entries) \<Rightarrow> Inr (entries = [])
      | Some n \<Rightarrow> Inl (PathError ''readdirent'' ENOTDIR))"

definition filepath_Dir :: "path \<Rightarrow> path" where
  "filepath_Dir p = butlast p"

text \<open>What is at a path, without what is below it.\<close>

datatype kind = IsFile string | IsUnreadable | IsDirectory

fun kind_of :: "node \<Rightarrow> kind" where
  "kind_of (File content) = IsFile content"
| "kind_of Unreadable = IsUnreadable"
| "kind_of (Dir entries) = IsDirectory"

definition kind_at :: "node \<Rightarrow> path \<Rightarrow> kind option" where
  "kind_at fs p = map_option kind_of (lookup p fs)"

text \<open>A directory has an entry with another name than the given one.\<close>

definition has_other :: "node \<Rightarrow> path \<Rightarrow> string \<Rightarrow> bool" where
  "has_other fs p name =
     (case lookup p fs of
        Some (Dir entries) \<Rightarrow> list_ex (\<lambda>e. fst e \<noteq> name) entries
      | _ \<Rightarrow> False)"

subsection \<open>Names and times\<close>

text \<open>
  The functions between times and names are not among the sources of this version of
  the store, or belong to Go's library; they are the fields of an environment:
  \<^verbatim>\<open>util.Date\<close>, \<^verbatim>\<open>util.ToDate\<close>, \<^verbatim>\<open>util.DateAndTime\<close>, the year of a time
  (\<^verbatim>\<open>Year()\<close>), the path of the directory and of the file of a record below the records
  directory (\<^verbatim>\<open>RecordDir\<close>, \<^verbatim>\<open>RecordPath\<close>), the parser of \<^verbatim>\<open>util.FileTimeFormat\<close>
  and \<^verbatim>\<open>DeserializeRecord\<close>.
\<close>

record env =
  Date :: "int \<Rightarrow> int \<Rightarrow> int \<Rightarrow> time"
  ToDate :: "time \<Rightarrow> time"
  DateAndTime :: "time \<Rightarrow> time \<Rightarrow> time"
  Year :: "time \<Rightarrow> int"
  RecordDir :: "time \<Rightarrow> path"
  RecordPath :: "time \<Rightarrow> path"
  ParseFileTime :: "string \<Rightarrow> time option"
  DeserializeRecord :: "string \<Rightarrow> time \<Rightarrow> error + Record"





subsection \<open>DeleteRecord\<close>

definition DeleteRecord :: "env \<Rightarrow> node \<Rightarrow> Record \<Rightarrow> error option \<times> node" where
  "DeleteRecord E fs record =
     (let path = RecordPath E (Record.Start record) in
      if \<not> fs_FileExists fs path then (Some ErrRecordDoesNotExist, fs)
      else case os_Remove fs path of
        (Some err, fs1) \<Rightarrow> (Some err, fs1)
      | (None, fs1) \<Rightarrow>
          (let dayDir = filepath_Dir path in
           case fs_DirIsEmpty fs1 dayDir of
             Inl err \<Rightarrow> (Some err, fs1)
           | Inr False \<Rightarrow> (None, fs1)
           | Inr True \<Rightarrow>
               (let fs2 = snd (os_Remove fs1 dayDir);
                    monthDir = filepath_Dir dayDir in
                case fs_DirIsEmpty fs2 monthDir of
                  Inl err \<Rightarrow> (Some err, fs2)
                | Inr False \<Rightarrow> (None, fs2)
                | Inr True \<Rightarrow>
                    (let fs3 = snd (os_Remove fs2 monthDir);
                         yearDir = filepath_Dir monthDir in
                     case fs_DirIsEmpty fs3 yearDir of
                       Inl err \<Rightarrow> (Some err, fs3)
                     | Inr False \<Rightarrow> (None, fs3)
                     | Inr True \<Rightarrow> (None, snd (os_Remove fs3 yearDir))))))"

subsection \<open>LoadRecord\<close>

definition LoadRecord :: "env \<Rightarrow> node \<Rightarrow> time \<Rightarrow> error + Record" where
  "LoadRecord E fs tm =
     (let path = RecordPath E tm in
      case os_ReadFile fs path of
        Inl err \<Rightarrow> (case err of PathError op reason \<Rightarrow> Inl ErrRecordNotFound | _ \<Rightarrow> Inl err)
      | Inr file \<Rightarrow> DeserializeRecord E file tm)"

subsection \<open>The scan\<close>

record FilterFunctions =
  Functions :: "FilterFunction list"
  Start :: time
  End :: time

type_synonym FilterResult = "error + Record"



text \<open>
  The producer pushes its results on a channel and returns after the first error. The
  scan is the list of the results it pushes when it is never told to stop; a consumer
  that stops it has read a prefix of the list. \<open>then_scan\<close> continues a loop after an
  inner loop, unless the inner loop has returned from the producer.
\<close>

definition then_scan :: "FilterResult list \<Rightarrow> FilterResult list \<Rightarrow> FilterResult list" where
  "then_scan results rest = (if list_ex isl results then results else results @ rest)"










subsection \<open>The layout of a store\<close>















subsection \<open>An example store\<close>

text \<open>
  A store with three records on two days, below directories for the year, the month and
  the day. The environment knows the two days and the times of day of the records; the
  content of a file is the project of its record.
\<close>

definition dayA :: time where
  "dayA = clock (24 * 738521) 0"

definition dayB :: time where
  "dayB = clock (24 * 738555) 0"

definition example_env :: env where
  "example_env =
     \<lparr>Date = (\<lambda>y m d. if y = 2023 \<and> m = 1 \<and> d = 2 then dayA
                       else if y = 2023 \<and> m = 2 \<and> d = 5 then dayB else NoTime),
      ToDate = (\<lambda>t. if t < dayB then dayA else dayB),
      DateAndTime = (\<lambda>date t. date + t),
      Year = (\<lambda>t. 2023),
      RecordDir = (\<lambda>t. if t = dayA then [''2023'', ''01'', ''02'']
                        else if t = dayB then [''2023'', ''02'', ''05'']
                        else [''0001'', ''01'', ''01'']),
      RecordPath = (\<lambda>t. if t = dayA + clock 9 0 then [''2023'', ''01'', ''02'', ''09-00.trk'']
                         else if t = dayA + clock 14 0 then [''2023'', ''01'', ''02'', ''14-00.trk'']
                         else if t = dayB + clock 9 0 then [''2023'', ''02'', ''05'', ''09-00.trk'']
                         else [''0001'', ''01'', ''01'', ''00-00.trk'']),
      ParseFileTime = (\<lambda>s. if s = ''09-00'' then Some (clock 9 0)
                            else if s = ''14-00'' then Some (clock 14 0) else None),
      DeserializeRecord = (\<lambda>file tm.
         Inr \<lparr>Project = file, Start = tm, End = NoTime, Note = [], Tags = [], Pause = []\<rparr>)\<rparr>"

definition example_store :: node where
  "example_store =
     Dir [(''2023'',
           Dir [(''02'', Dir [(''05'', Dir [(''09-00.trk'', File ''work'')])]),
                (''01'', Dir [(''02'', Dir [(''14-00.trk'', File ''home''),
                                            (''09-00.trk'', File ''work'')])])])]"

definition unreadable_store :: node where
  "unreadable_store =
     Dir [(''2023'', Dir [(''01'', Dir [(''02'', Dir [(''09-00.trk'', Unreadable)])])])]"

definition example_record :: "string \<Rightarrow> time \<Rightarrow> Record" where
  "example_record project tm =
     \<lparr>Project = project, Start = tm, End = NoTime, Note = [], Tags = [], Pause = []\<rparr>"






section \<open>Properties\<close>

subsection \<open>Reporter\<close>

text \<open>
  C1. The totals of NewReporter on a tree of depth three: a project \<open>P\<close> with the
  children \<open>C1\<close> and \<open>C2\<close> and the grandchild \<open>G\<close> below \<open>C1\<close>, one record of one
  hour for each. When the loop over the totals visits \<open>G\<close>, \<open>C1\<close>, \<open>C2\<close>, \<open>P\<close>, the
  total of \<open>P\<close> is five hours, while its own hour and the totals of its children make
  four: the hour of \<open>G\<close> reaches \<open>P\<close> once directly and once inside the total of \<open>C1\<close>.
  When the loop visits \<open>P\<close> first the total of \<open>P\<close> is four hours.
\<close>

theorem NewReporter_counts_grandchild_twice:
  "ProjectTime_of (NewReporter (clock 20 0) (\<lambda>totals. [''G'', ''C1'', ''C2'', ''P''])
       (Inr family) (load_from family_records) [] []) ''P'' = Some (5 * clock 1 0)
   \<and> ProjectTime_of (NewReporter (clock 20 0) (\<lambda>totals. [''G'', ''C1'', ''C2'', ''P''])
       (Inr family) (load_from family_records) [] []) ''C1'' = Some (2 * clock 1 0)
   \<and> ProjectTime_of (NewReporter (clock 20 0) (\<lambda>totals. [''G'', ''C1'', ''C2'', ''P''])
       (Inr family) (load_from family_records) [] []) ''C2'' = Some (clock 1 0)
   \<and> Duration_noargs (clock 20 0) (hour_of ''P'' 8) = clock 1 0
   \<and> ProjectTime_of (NewReporter (clock 20 0) (\<lambda>totals. [''P'', ''C1'', ''C2'', ''G''])
       (Inr family) (load_from family_records) [] []) ''P'' = Some (4 * clock 1 0)"
  by code_simp

lemma index_Duration_update:
  "index_Duration (AList.update k v m) k' = (if k' = k then v else index_Duration m k')"
  by (simp add: index_Duration_def update_conv')

lemma wrap64_add_left:
  "wrap64 (wrap64 a + b) = wrap64 (a + b)"
proof -
  have "wrap64 a + b + 2 ^ 63 = (a + 2 ^ 63) mod 2 ^ 64 + b"
    by (simp add: wrap64_def)
  moreover have "((a + 2 ^ 63) mod 2 ^ 64 + b) mod (2 ^ 64 :: int) = (a + 2 ^ 63 + b) mod 2 ^ 64"
    by (rule mod_add_left_eq)
  moreover have "a + 2 ^ 63 + b = a + b + (2 ^ 63 :: int)"
    by simp
  ultimately have "(wrap64 a + b + 2 ^ 63) mod 2 ^ 64 = (a + b + 2 ^ 63) mod (2 ^ 64 :: int)"
    by metis
  then show ?thesis
    unfolding wrap64_def [of "wrap64 a + b"] wrap64_def [of "a + b"] by simp
qed

lemma wrap64_in_range:
  assumes "minDuration \<le> x" and "x \<le> maxDuration"
  shows "wrap64 x = x"
  using assms by (simp add: wrap64_def minDuration_def maxDuration_def)

lemma saturate64_in_range:
  "minDuration \<le> saturate64 x \<and> saturate64 x \<le> maxDuration"
  by (simp add: saturate64_def minDuration_def maxDuration_def)

lemma Duration_noargs_saturates:
  "Duration_noargs now r = saturate64 (whole_span now r)"
  by (simp add: Duration_noargs_def whole_span_def Sub_def saturate64_def Let_def Before_def
      minDuration_def maxDuration_def)

lemma add_record_totals:
  "index_Duration (fst (add_record now (totals, tRange) rec)) p =
     (if Project rec = p then wrap64 (index_Duration totals p + Duration_noargs now rec)
      else index_Duration totals p)"
  by (simp add: add_record_def Let_def index_Duration_update add64_def)

lemma foldl_add_record_totals:
  "index_Duration (fst (foldl (add_record now) acc records)) p =
     (if filter (\<lambda>r. Project r = p) records = [] then index_Duration (fst acc) p
      else wrap64 (index_Duration (fst acc) p
             + sum_list (map (Duration_noargs now) (filter (\<lambda>r. Project r = p) records))))"
proof (induction records arbitrary: acc)
  case Nil
  then show ?case by simp
next
  case (Cons rec records)
  obtain totals tRange where acc: "acc = (totals, tRange)"
    by (cases acc)
  show ?case
    using Cons.IH [of "add_record now acc rec"] add_record_totals [of now totals tRange rec p]
    by (simp add: acc wrap64_add_left add.assoc)
qed

text \<open>
  C2 (amended). For every record that the scan yields, NewReporter adds to the accumulator
  of the project of the record the result of \<^verbatim>\<open>Duration()\<close> without arguments: the span of
  the record, its end (the current time while it is open) minus its start, which
  \<^verbatim>\<open>Sub\<close> brings to the nearest 64-bit duration. The sum is taken in 64 bits and wraps
  around; where the span and the sum fit 64 bits the accumulator grows by exactly the
  span. After the loop the accumulator of a project that has records is, in 64 bits, its
  value before the loop plus the sum of these durations, and that of a project without
  records is unchanged. NewReporter takes no time window and nothing is clipped. For a
  record without pauses whose end is not before its start the amount is the active
  duration over an unbounded window.
\<close>

theorem NewReporter_adds_whole_span:
  "index_Duration (fst (add_record now (totals, tRange) rec)) (Project rec) =
     wrap64 (index_Duration totals (Project rec) + Duration_noargs now rec)
   \<and> Duration_noargs now rec = saturate64 (whole_span now rec)
   \<and> (minDuration \<le> whole_span now rec \<and> whole_span now rec \<le> maxDuration
        \<and> minDuration \<le> index_Duration totals (Project rec) + whole_span now rec
        \<and> index_Duration totals (Project rec) + whole_span now rec \<le> maxDuration
        \<longrightarrow> index_Duration (fst (add_record now (totals, tRange) rec)) (Project rec) =
              index_Duration totals (Project rec) + whole_span now rec)
   \<and> (filter (\<lambda>r. Project r = p) records \<noteq> []
        \<longrightarrow> index_Duration (fst (foldl (add_record now) (totals, tRange) records)) p =
              wrap64 (index_Duration totals p
                + sum_list (map (\<lambda>r. saturate64 (whole_span now r))
                     (filter (\<lambda>r. Project r = p) records))))
   \<and> (filter (\<lambda>r. Project r = p) records = []
        \<longrightarrow> index_Duration (fst (foldl (add_record now) (totals, tRange) records)) p =
              index_Duration totals p)
   \<and> (Pause rec = [] \<and> \<not> Before (if IsZero (Record.End rec) then now else Record.End rec)
                                  (Record.Start rec)
        \<longrightarrow> Duration_noargs now rec = Duration now rec NoTime NoTime)"
proof -
  have one: "index_Duration (fst (add_record now (totals, tRange) rec)) (Project rec) =
      wrap64 (index_Duration totals (Project rec) + Duration_noargs now rec)"
    by (simp add: add_record_totals)
  have sat: "Duration_noargs now r = saturate64 (whole_span now r)" for r
    by (rule Duration_noargs_saturates)
  have exact: "index_Duration (fst (add_record now (totals, tRange) rec)) (Project rec) =
      index_Duration totals (Project rec) + whole_span now rec"
    if "minDuration \<le> whole_span now rec" and "whole_span now rec \<le> maxDuration"
      and "minDuration \<le> index_Duration totals (Project rec) + whole_span now rec"
      and "index_Duration totals (Project rec) + whole_span now rec \<le> maxDuration"
  proof -
    have "Duration_noargs now rec = whole_span now rec"
      using that(1,2) by (simp add: sat saturate64_def)
    then show ?thesis
      using that(3,4) by (simp add: one wrap64_in_range)
  qed
  have "(\<lambda>r. saturate64 (whole_span now r)) = Duration_noargs now"
    by (rule ext) (simp add: sat)
  then have loop: "index_Duration (fst (foldl (add_record now) (totals, tRange) records)) p =
      (if filter (\<lambda>r. Project r = p) records = [] then index_Duration totals p
       else wrap64 (index_Duration totals p
              + sum_list (map (\<lambda>r. saturate64 (whole_span now r))
                   (filter (\<lambda>r. Project r = p) records))))"
    using foldl_add_record_totals [of now "(totals, tRange)" records p] by simp
  have active: "Duration_noargs now rec = Duration now rec NoTime NoTime"
    if "Pause rec = []"
      and "\<not> Before (if IsZero (Record.End rec) then now else Record.End rec) (Record.Start rec)"
  proof -
    have "Duration now rec NoTime NoTime = wrap64 (Duration_noargs now rec)"
      using that
      by (simp add: Duration_def DurationClip_def PauseDuration_def Duration_noargs_def
          sub64_def NoTime_def IsZero_def Let_def)
    also have "\<dots> = Duration_noargs now rec"
      using saturate64_in_range [of "whole_span now rec"] by (simp add: sat wrap64_in_range)
    finally show ?thesis by simp
  qed
  show ?thesis
    using one sat exact loop active by simp
qed

theorem NewReporter_adds_whole_span_witness:
  "Pause closed_record = []
   \<and> \<not> Before (if IsZero (Record.End closed_record) then clock 20 0 else Record.End closed_record)
              (Record.Start closed_record)
   \<and> whole_span (clock 20 0) closed_record = 2 * clock 1 0
   \<and> minDuration \<le> whole_span (clock 20 0) closed_record
   \<and> whole_span (clock 20 0) closed_record \<le> maxDuration
   \<and> minDuration \<le> index_Duration [] (Project closed_record) + whole_span (clock 20 0) closed_record
   \<and> index_Duration [] (Project closed_record) + whole_span (clock 20 0) closed_record \<le> maxDuration
   \<and> index_Duration (fst (add_record (clock 20 0)
          ([], \<lparr>TimeRange.Start = NoTime, TimeRange.End = NoTime\<rparr>) closed_record))
        (Project closed_record)
       = 2 * clock 1 0
   \<and> Duration (clock 20 0) closed_record NoTime NoTime = 2 * clock 1 0
   \<and> filter (\<lambda>r. Project r = ''work'') [closed_record, long_record] \<noteq> []
   \<and> whole_span (clock 20 0) long_record = 2 ^ 63 + 5
   \<and> Duration_noargs (clock 20 0) long_record = maxDuration
   \<and> index_Duration (fst (foldl (add_record (clock 20 0))
          ([], \<lparr>TimeRange.Start = NoTime, TimeRange.End = NoTime\<rparr>)
          [closed_record, long_record])) ''work''
       = minDuration + 2 * clock 1 0 - 1"
proof -
  note claim = NewReporter_adds_whole_span [of "clock 20 0" "[]"
      "\<lparr>TimeRange.Start = NoTime, TimeRange.End = NoTime\<rparr>" closed_record
      "''work''" "[closed_record, long_record]"]
  note claim_long = NewReporter_adds_whole_span [of "clock 20 0" "[]"
      "\<lparr>TimeRange.Start = NoTime, TimeRange.End = NoTime\<rparr>" long_record
      "''work''" "[]"]
  have a: "Pause closed_record = []"
    by (simp add: closed_record_def)
  have b: "\<not> Before (if IsZero (Record.End closed_record) then clock 20 0
                      else Record.End closed_record) (Record.Start closed_record)"
    by (simp add: closed_record_def Before_def IsZero_def clock_def)
  have c: "whole_span (clock 20 0) closed_record = 2 * clock 1 0"
    by (simp add: whole_span_def closed_record_def IsZero_def clock_def)
  have d: "index_Duration [] k = 0" for k
    by (simp add: index_Duration_def)
  have e: "minDuration \<le> whole_span (clock 20 0) closed_record
      \<and> whole_span (clock 20 0) closed_record \<le> maxDuration
      \<and> minDuration \<le> index_Duration [] (Project closed_record)
            + whole_span (clock 20 0) closed_record
      \<and> index_Duration [] (Project closed_record) + whole_span (clock 20 0) closed_record
            \<le> maxDuration"
    by (simp add: c d) (simp add: minDuration_def maxDuration_def clock_def)
  have f: "filter (\<lambda>r. Project r = ''work'') [closed_record, long_record]
      = [closed_record, long_record]"
  proof -
    have "Project closed_record = ''work''" and "Project long_record = ''work''"
      by (simp_all add: closed_record_def long_record_def)
    then show ?thesis by simp
  qed
  have g: "whole_span (clock 20 0) long_record = 2 ^ 63 + 5"
    by (simp add: whole_span_def long_record_def IsZero_def clock_def)
  have h: "saturate64 (whole_span (clock 20 0) long_record) = maxDuration"
    unfolding g by (simp add: saturate64_def minDuration_def maxDuration_def)
  have h': "saturate64 (whole_span (clock 20 0) closed_record) = 2 * clock 1 0"
    unfolding c by (simp add: saturate64_def minDuration_def maxDuration_def clock_def)
  have i: "wrap64 (2 * clock 1 0 + maxDuration) = minDuration + 2 * clock 1 0 - 1"
    by (simp add: wrap64_def minDuration_def maxDuration_def clock_def)
  have exact: "index_Duration (fst (add_record (clock 20 0)
          ([], \<lparr>TimeRange.Start = NoTime, TimeRange.End = NoTime\<rparr>) closed_record))
        (Project closed_record)
      = index_Duration [] (Project closed_record) + whole_span (clock 20 0) closed_record"
    using claim e by blast
  have active: "Duration_noargs (clock 20 0) closed_record
      = Duration (clock 20 0) closed_record NoTime NoTime"
    using claim a b by blast
  have sat: "Duration_noargs (clock 20 0) closed_record
      = saturate64 (whole_span (clock 20 0) closed_record)"
    using claim by blast
  have sat_long: "Duration_noargs (clock 20 0) long_record
      = saturate64 (whole_span (clock 20 0) long_record)"
    using claim_long by blast
  have nonempty: "filter (\<lambda>r. Project r = ''work'') [closed_record, long_record] \<noteq> []"
    unfolding f by simp
  have loop: "index_Duration (fst (foldl (add_record (clock 20 0))
          ([], \<lparr>TimeRange.Start = NoTime, TimeRange.End = NoTime\<rparr>)
          [closed_record, long_record])) ''work''
      = wrap64 (index_Duration [] ''work''
          + sum_list (map (\<lambda>r. saturate64 (whole_span (clock 20 0) r))
               (filter (\<lambda>r. Project r = ''work'') [closed_record, long_record])))"
    using claim nonempty by blast
  have total: "index_Duration (fst (foldl (add_record (clock 20 0))
          ([], \<lparr>TimeRange.Start = NoTime, TimeRange.End = NoTime\<rparr>)
          [closed_record, long_record])) ''work''
      = minDuration + 2 * clock 1 0 - 1"
    unfolding loop f by (simp add: d h h' i)
  have dur: "Duration (clock 20 0) closed_record NoTime NoTime = 2 * clock 1 0"
    using active sat h' by simp
  have first: "index_Duration (fst (add_record (clock 20 0)
          ([], \<lparr>TimeRange.Start = NoTime, TimeRange.End = NoTime\<rparr>) closed_record))
        (Project closed_record) = 2 * clock 1 0"
    unfolding exact by (simp add: c d)
  have long: "Duration_noargs (clock 20 0) long_record = maxDuration"
    using sat_long h by simp
  show ?thesis
    using a b c e first dur nonempty g long total by blast
qed

theorem NewReporter_window_counterexample:
  "FilterByTime (clock 10 0) (clock 12 0) closed_record
   \<and> ProjectTime_of (NewReporter (clock 20 0) (map fst) (Inr work_only)
        (load_from [closed_record]) [] [FilterByTime (clock 10 0) (clock 12 0)]) ''work''
      = Some (2 * clock 1 0)
   \<and> Duration (clock 20 0) closed_record (clock 10 0) (clock 12 0) = clock 1 0"
  by code_simp

subsection \<open>Stopping a record\<close>

lemma StopRecord_loop_empty:
  "Pause r = [] \<Longrightarrow> StopRecord_loop t r = r"
  by (simp add: StopRecord_loop.simps [of t r])

lemma StopRecord_loop_keep:
  "Pause r \<noteq> [] \<Longrightarrow> \<not> OpenOrEndsAfter t (last (Pause r)) \<Longrightarrow> StopRecord_loop t r = r"
  by (simp add: StopRecord_loop.simps [of t r] OpenOrEndsAfter_def Let_def last_conv_nth)

lemma StopRecord_loop_discard:
  "Pause r \<noteq> [] \<Longrightarrow> OpenOrEndsAfter t (last (Pause r)) \<Longrightarrow>
     StopRecord_loop t r = StopRecord_loop t
       (r\<lparr>Record.End := Pause.Start (last (Pause r)), Pause := butlast (Pause r)\<rparr>)"
  by (simp add: StopRecord_loop.simps [of t r] OpenOrEndsAfter_def Let_def last_conv_nth
      butlast_conv_take)

lemma rev_last_butlast: "ps \<noteq> [] \<Longrightarrow> rev ps = last ps # rev (butlast ps)"
  by (induction ps) auto

lemma StopRecord_loop_Pause:
  "Pause (StopRecord_loop t r) = rev (dropWhile (OpenOrEndsAfter t) (rev (Pause r)))"
proof (induction "length (Pause r)" arbitrary: r rule: less_induct)
  case less
  show ?case
  proof (cases "Pause r = []")
    case True
    then show ?thesis by (simp add: StopRecord_loop_empty)
  next
    case False
    show ?thesis
    proof (cases "OpenOrEndsAfter t (last (Pause r))")
      case True
      let ?r2 = "r\<lparr>Record.End := Pause.Start (last (Pause r)), Pause := butlast (Pause r)\<rparr>"
      have "length (Pause ?r2) < length (Pause r)"
        using False by simp
      then have "Pause (StopRecord_loop t ?r2)
          = rev (dropWhile (OpenOrEndsAfter t) (rev (Pause ?r2)))"
        by (rule less)
      moreover have "dropWhile (OpenOrEndsAfter t) (rev (Pause r))
          = dropWhile (OpenOrEndsAfter t) (rev (butlast (Pause r)))"
        by (subst rev_last_butlast [OF False]) (simp add: True)
      ultimately show ?thesis
        using StopRecord_loop_discard [OF False True] by simp
    next
      case nd: False
      have "dropWhile (OpenOrEndsAfter t) (rev (Pause r)) = rev (Pause r)"
        by (subst (1 2) rev_last_butlast [OF False]) (simp add: nd)
      then show ?thesis
        using StopRecord_loop_keep [OF False nd] by simp
    qed
  qed
qed

lemma StopRecord_loop_length:
  "length (Pause (StopRecord_loop t r)) \<le> length (Pause r)"
  unfolding StopRecord_loop_Pause
  using length_dropWhile_le [of "OpenOrEndsAfter t" "rev (Pause r)"] by simp

lemma StopRecord_loop_End:
  "Record.End (StopRecord_loop t r) =
     (if length (Pause (StopRecord_loop t r)) = length (Pause r) then Record.End r
      else Pause.Start (Pause r ! length (Pause (StopRecord_loop t r))))"
proof (induction "length (Pause r)" arbitrary: r rule: less_induct)
  case less
  show ?case
  proof (cases "Pause r = []")
    case True
    then show ?thesis by (simp add: StopRecord_loop_empty)
  next
    case False
    show ?thesis
    proof (cases "OpenOrEndsAfter t (last (Pause r))")
      case True
      let ?r2 = "r\<lparr>Record.End := Pause.Start (last (Pause r)), Pause := butlast (Pause r)\<rparr>"
      let ?n = "length (Pause (StopRecord_loop t ?r2))"
      have eq: "StopRecord_loop t r = StopRecord_loop t ?r2"
        by (rule StopRecord_loop_discard [OF False True])
      have lt: "length (Pause ?r2) < length (Pause r)"
        using False by simp
      then have ih: "Record.End (StopRecord_loop t ?r2) =
         (if ?n = length (Pause ?r2) then Record.End ?r2 else Pause.Start (Pause ?r2 ! ?n))"
        by (rule less)
      have le: "?n \<le> length (Pause ?r2)"
        by (rule StopRecord_loop_length)
      show ?thesis
      proof (cases "?n = length (Pause ?r2)")
        case True
        then have "Record.End (StopRecord_loop t r) = Pause.Start (last (Pause r))"
          using eq ih by simp
        moreover have "?n = length (Pause r) - 1" "?n \<noteq> length (Pause r)"
          using True lt by simp_all
        ultimately show ?thesis
          using eq False by (simp add: last_conv_nth)
      next
        case ne: False
        then have n: "?n < length (butlast (Pause r))"
          using le by simp
        then have "Record.End (StopRecord_loop t r) = Pause.Start (Pause r ! ?n)"
          using eq ih ne by (simp add: nth_butlast)
        moreover have "?n \<noteq> length (Pause r)"
          using n by simp
        ultimately show ?thesis
          using eq by simp
      qed
    next
      case nd: False
      then show ?thesis
        using StopRecord_loop_keep [OF False nd] by simp
    qed
  qed
qed

lemma StopRecord_loop_prefix:
  "Pause (StopRecord_loop t r) = take (length (Pause (StopRecord_loop t r))) (Pause r)"
proof -
  have "dropWhile (OpenOrEndsAfter t) (rev (Pause r))
      = drop (length (takeWhile (OpenOrEndsAfter t) (rev (Pause r)))) (rev (Pause r))"
    by (simp add: dropWhile_eq_drop)
  then have "Pause (StopRecord_loop t r)
      = take (length (Pause r) - length (takeWhile (OpenOrEndsAfter t) (rev (Pause r)))) (Pause r)"
    unfolding StopRecord_loop_Pause by (simp add: rev_drop)
  then show ?thesis
    by (metis length_take min.absorb_iff2 nat_le_linear take_all)
qed

lemma StopRecord_loop_last:
  assumes "Pause (StopRecord_loop t r) \<noteq> []"
  shows "\<not> OpenOrEndsAfter t (last (Pause (StopRecord_loop t r)))"
proof -
  have ne: "dropWhile (OpenOrEndsAfter t) (rev (Pause r)) \<noteq> []"
    using assms unfolding StopRecord_loop_Pause by simp
  then have "\<not> OpenOrEndsAfter t (hd (dropWhile (OpenOrEndsAfter t) (rev (Pause r))))"
    by (rule hd_dropWhile)
  then show ?thesis
    unfolding StopRecord_loop_Pause using ne by (simp add: last_rev)
qed

lemma StopRecord_loop_frame:
  "StopRecord_loop t r =
     r\<lparr>Record.End := Record.End (StopRecord_loop t r), Pause := Pause (StopRecord_loop t r)\<rparr>"
proof (induction "length (Pause r)" arbitrary: r rule: less_induct)
  case less
  show ?case
  proof (cases "Pause r \<noteq> [] \<and> OpenOrEndsAfter t (last (Pause r))")
    case True
    let ?r2 = "r\<lparr>Record.End := Pause.Start (last (Pause r)), Pause := butlast (Pause r)\<rparr>"
    have eq: "StopRecord_loop t r = StopRecord_loop t ?r2"
      using True by (simp add: StopRecord_loop_discard)
    have "length (Pause ?r2) < length (Pause r)"
      using True by simp
    then have "StopRecord_loop t ?r2 = ?r2\<lparr>Record.End := Record.End (StopRecord_loop t ?r2),
        Pause := Pause (StopRecord_loop t ?r2)\<rparr>"
      by (rule less)
    then show ?thesis
      unfolding eq by simp
  next
    case False
    then have "StopRecord_loop t r = r"
      using StopRecord_loop_empty StopRecord_loop_keep by blast
    then show ?thesis by simp
  qed
qed

lemma Check_adjacent:
  assumes "Check r = None" and "Suc i < length (Pause r)"
  shows "\<not> After (Pause.End (Pause r ! i)) (Pause.Start (Pause r ! Suc i))"
proof -
  have loop: "Check_loop r NoTime NoTime (Pause r) = None"
    using assms(1) by (simp add: Check_def split: if_splits)
  have gen: "\<And>s e. Check_loop r s e ps = None \<Longrightarrow> Suc i < length ps \<Longrightarrow>
      \<not> After (Pause.End (ps ! i)) (Pause.Start (ps ! Suc i))" for ps i
  proof (induction ps arbitrary: i)
    case Nil
    then show ?case by simp
  next
    case (Cons p ps)
    from Cons.prems(2) obtain q qs where ps: "ps = q # qs"
      by (cases ps) auto
    have tl: "Check_loop r (Pause.Start p) (Pause.End p) ps = None"
      using Cons.prems(1) by (simp split: if_splits)
    show ?case
    proof (cases i)
      case 0
      then show ?thesis using tl ps by (simp split: if_splits)
    next
      case (Suc j)
      then show ?thesis using Cons.IH [OF tl, of j] Cons.prems(2) by simp
    qed
  qed
  show ?thesis
    by (rule gen [OF loop assms(2)])
qed

text \<open>
  C3 (amended). For every record that OpenRecord returns and every stop time \<open>t\<close>,
  StopRecord sets the end of the record to \<open>t\<close> and then, while the last pause is open or
  ends after \<open>t\<close>, sets the end to the start of that pause and discards the pause; no
  other field changes. The last pause that remains, if any, is closed and ends at or
  before \<open>t\<close>; when the record passes Check it also ends at or before the new end.
  A record with a single open pause ends at the start of that pause, with no pauses.
\<close>

theorem StopRecord_rewinds:
  "StopRecord save (Inr (Some r)) t = (Some (StopRecord_record t r), save (StopRecord_record t r))
   \<and> StopRecord_record t r =
       r\<lparr>Record.End :=
            (if length (Pause (StopRecord_record t r)) = length (Pause r) then t
             else Pause.Start (Pause r ! length (Pause (StopRecord_record t r)))),
          Pause := rev (dropWhile (OpenOrEndsAfter t) (rev (Pause r)))\<rparr>
   \<and> (Pause (StopRecord_record t r) \<noteq> []
        \<longrightarrow> \<not> OpenOrEndsAfter t (last (Pause (StopRecord_record t r))))
   \<and> (Check r = None \<and> Pause (StopRecord_record t r) \<noteq> []
        \<longrightarrow> \<not> After (Pause.End (last (Pause (StopRecord_record t r))))
                     (Record.End (StopRecord_record t r)))
   \<and> (Pause r = [p] \<and> IsZero (Pause.End p)
        \<longrightarrow> Record.End (StopRecord_record t r) = Pause.Start p
            \<and> Pause (StopRecord_record t r) = [])"
proof -
  let ?r0 = "r\<lparr>Record.End := t\<rparr>"
  let ?r' = "StopRecord_record t r"
  have r': "?r' = StopRecord_loop t ?r0"
    by (simp add: StopRecord_record_def)
  have ps: "Pause ?r' = rev (dropWhile (OpenOrEndsAfter t) (rev (Pause r)))"
    unfolding r' StopRecord_loop_Pause by simp
  have en: "Record.End ?r' =
      (if length (Pause ?r') = length (Pause r) then t
       else Pause.Start (Pause r ! length (Pause ?r')))"
    unfolding r' using StopRecord_loop_End [of t ?r0] by simp
  have c1: "StopRecord save (Inr (Some r)) t = (Some ?r', save ?r')"
    by (simp add: StopRecord_def Let_def)
  have c2: "?r' = r\<lparr>Record.End :=
            (if length (Pause ?r') = length (Pause r) then t
             else Pause.Start (Pause r ! length (Pause ?r'))),
          Pause := rev (dropWhile (OpenOrEndsAfter t) (rev (Pause r)))\<rparr>"
  proof -
    have "?r' = ?r0\<lparr>Record.End := Record.End ?r', Pause := Pause ?r'\<rparr>"
      unfolding r' by (rule StopRecord_loop_frame)
    then show ?thesis
      using en ps by simp
  qed
  have c3: "Pause ?r' \<noteq> [] \<longrightarrow> \<not> OpenOrEndsAfter t (last (Pause ?r'))"
    unfolding r' using StopRecord_loop_last [of t ?r0] by blast
  have c4: "\<not> After (Pause.End (last (Pause ?r'))) (Record.End ?r')"
    if chk: "Check r = None" and ne: "Pause ?r' \<noteq> []"
  proof (cases "length (Pause ?r') = length (Pause r)")
    case True
    then show ?thesis
      using c3 ne en by (simp add: OpenOrEndsAfter_def)
  next
    case False
    let ?n = "length (Pause ?r')"
    have le: "?n \<le> length (Pause r)"
      unfolding r' using StopRecord_loop_length [of t ?r0] by simp
    then have lt: "?n < length (Pause r)"
      using False by simp
    have pos: "0 < ?n"
      using ne by simp
    have pre: "Pause ?r' = take ?n (Pause r)"
      unfolding r' using StopRecord_loop_prefix [of t ?r0] by simp
    have "last (Pause ?r') = Pause ?r' ! (?n - 1)"
      using ne by (simp add: last_conv_nth)
    also have "\<dots> = take ?n (Pause r) ! (?n - 1)"
      using pre by simp
    also have "\<dots> = Pause r ! (?n - 1)"
      using pos by simp
    finally have la: "last (Pause ?r') = Pause r ! (?n - 1)" .
    have "\<not> After (Pause.End (Pause r ! (?n - 1))) (Pause.Start (Pause r ! Suc (?n - 1)))"
      using lt pos by (intro Check_adjacent [OF chk]) simp
    then show ?thesis
      using la en False pos by simp
  qed
  have c5: "Record.End ?r' = Pause.Start p \<and> Pause ?r' = []"
    if "Pause r = [p]" and "IsZero (Pause.End p)"
  proof -
    have "Pause ?r' = []"
      using that ps by (simp add: OpenOrEndsAfter_def)
    then show ?thesis
      using en that by simp
  qed
  show ?thesis
    using c1 c2 c3 c4 c5 by blast
qed

theorem StopRecord_rewinds_witness:
  "(Pause paused_record = [\<lparr>Pause.Start = clock 10 0, Pause.End = NoTime, Pause.Note = []\<rparr>]
    \<and> IsZero (Pause.End \<lparr>Pause.Start = clock 10 0, Pause.End = NoTime, Pause.Note = []\<rparr>)
    \<and> Record.Start paused_record = clock 9 0
    \<and> Record.End (StopRecord_record (clock 11 0) paused_record) = clock 10 0
    \<and> Pause (StopRecord_record (clock 11 0) paused_record) = [])
   \<and> (Check resumed_record = None
    \<and> Pause (StopRecord_record (clock 11 0) resumed_record) \<noteq> []
    \<and> \<not> OpenOrEndsAfter (clock 11 0) (last (Pause (StopRecord_record (clock 11 0) resumed_record)))
    \<and> \<not> After (Pause.End (last (Pause (StopRecord_record (clock 11 0) resumed_record))))
               (Record.End (StopRecord_record (clock 11 0) resumed_record)))"
proof -
  have a: "Pause paused_record = [\<lparr>Pause.Start = clock 10 0, Pause.End = NoTime, Pause.Note = []\<rparr>]"
    "IsZero (Pause.End \<lparr>Pause.Start = clock 10 0, Pause.End = NoTime, Pause.Note = []\<rparr>)"
    "Record.Start paused_record = clock 9 0"
    by (simp_all add: paused_record_def IsZero_def NoTime_def)
  have b: "Check resumed_record = None"
    by (simp add: resumed_record_def Check_def IsZero_def NoTime_def Before_def After_def clock_def)
  have "StopRecord_record (clock 11 0) resumed_record =
      resumed_record\<lparr>Record.End := clock 10 0,
        Pause := [\<lparr>Pause.Start = clock 9 30, Pause.End = clock 9 45, Pause.Note = []\<rparr>]\<rparr>"
    by (simp add: StopRecord_record_def resumed_record_def StopRecord_loop.simps
        IsZero_def NoTime_def After_def clock_def)
  then have c: "Pause (StopRecord_record (clock 11 0) resumed_record) \<noteq> []"
    by simp
  have d: "Record.End (StopRecord_record (clock 11 0) paused_record) = clock 10 0
      \<and> Pause (StopRecord_record (clock 11 0) paused_record) = []"
    using a StopRecord_rewinds [of "\<lambda>_. None" paused_record "clock 11 0"
        "\<lparr>Pause.Start = clock 10 0, Pause.End = NoTime, Pause.Note = []\<rparr>"]
    by simp
  have e: "\<not> OpenOrEndsAfter (clock 11 0) (last (Pause (StopRecord_record (clock 11 0) resumed_record)))
    \<and> \<not> After (Pause.End (last (Pause (StopRecord_record (clock 11 0) resumed_record))))
               (Record.End (StopRecord_record (clock 11 0) resumed_record))"
    using b c StopRecord_rewinds [of "\<lambda>_. None" resumed_record "clock 11 0"]
    by blast
  show ?thesis
    using a b c d e by blast
qed

theorem StopRecord_overlapping_counterexample:
  "StopRecord (\<lambda>_. None) (Inr (Some overlapping_record)) (clock 11 0) =
     (Some (overlapping_record
        \<lparr>Record.End := clock 10 30,
         Pause := [\<lparr>Pause.Start = clock 10 0, Pause.End = clock 10 50, Pause.Note = []\<rparr>]\<rparr>),
      None)
   \<and> After (clock 10 50) (clock 10 30)"
  by (simp add: StopRecord_def StopRecord_record_def overlapping_record_def
      StopRecord_loop.simps IsZero_def NoTime_def After_def clock_def)

subsection \<open>Consistency of a record\<close>

lemma Check_loop_None:
  "Check_loop r s e ps = None \<longleftrightarrow>
     (\<forall>p\<in>set ps. \<not> Before (Pause.Start p) (Record.Start r)
          \<and> (\<not> IsZero (Record.End r) \<longrightarrow> \<not> After (Pause.End p) (Record.End r)))
     \<and> (ps \<noteq> [] \<longrightarrow> \<not> After s (Pause.Start (hd ps)) \<and> \<not> After e (Pause.Start (hd ps)))
     \<and> list_all (\<lambda>(p, q). \<not> After (Pause.Start p) (Pause.Start q)
                         \<and> \<not> After (Pause.End p) (Pause.Start q)) (zip ps (tl ps))"
proof (induction ps arbitrary: s e)
  case Nil
  then show ?case by simp
next
  case (Cons p ps)
  show ?case
  proof (cases ps)
    case Nil
    then show ?thesis by auto
  next
    case (Cons q qs)
    then show ?thesis using Cons.IH [of "Pause.Start p" "Pause.End p"] by auto
  qed
qed

lemma OrderedByStart_adjacent:
  "OrderedByStart ps
     = list_all (\<lambda>(p, q). \<not> After (Pause.Start p) (Pause.Start q)) (zip ps (tl ps))"
proof (induction ps)
  case Nil
  then show ?case by (simp add: OrderedByStart_def)
next
  case (Cons p ps)
  show ?case
  proof (cases ps)
    case Nil
    then show ?thesis by (simp add: OrderedByStart_def)
  next
    case (Cons q qs)
    have "(\<forall>x\<in>set (q # qs). \<not> After (Pause.Start p) (Pause.Start x)) = (\<not> After (Pause.Start p) (Pause.Start q))"
      if "sorted_wrt (\<lambda>p q. \<not> After (Pause.Start p) (Pause.Start q)) (q # qs)"
      using that by (auto simp: After_def)
    then show ?thesis using Cons.IH Cons by (auto simp: OrderedByStart_def)
  qed
qed

lemma list_all_zip_conj:
  "list_all (\<lambda>(p, q). A p q \<and> B p q) xs = (list_all (\<lambda>(p, q). A p q) xs \<and> list_all (\<lambda>(p, q). B p q) xs)"
  by (induction xs) auto

lemma previous_end_guard:
  assumes "\<forall>p\<in>set ps. (0::int) \<le> Pause.Start p"
  shows "list_all (\<lambda>(p, q). \<not> After (Pause.End p) (Pause.Start q)) (zip ps (tl ps))
           = StartsAfterPreviousEnd ps"
proof -
  have "\<And>p q. (p, q) \<in> set (zip ps (tl ps)) \<Longrightarrow> 0 \<le> Pause.Start q"
    using assms by (metis in_set_zipE list.sel(2) list.set_sel(2))
  then have "\<And>x. x \<in> set (zip ps (tl ps)) \<Longrightarrow>
      (case x of (p, q) \<Rightarrow> \<not> After (Pause.End p) (Pause.Start q))
      = (case x of (p, q) \<Rightarrow> \<not> IsZero (Pause.End p) \<longrightarrow> \<not> Before (Pause.Start q) (Pause.End p))"
    by (fastforce simp: After_def Before_def IsZero_def)
  then show ?thesis
    unfolding StartsAfterPreviousEnd_def list_all_iff by blast
qed

text \<open>
  C4 (amended). For every record that does not start before the zero time, Check succeeds
  if and only if: the end is absent or not before the start; the pauses are ordered by
  start, equal starts allowed; each pause starts at or after the end of the pause in
  front of it when that pause is closed; each pause starts at or after the start of the
  record and, if the record has an end, each closed pause ends at or before it.
\<close>

theorem Check_succeeds_iff:
  assumes "\<not> Before (Record.Start r) NoTime"
  shows "(Check r = None) =
           (EndAbsentOrAfterStart r \<and> OrderedByStart (Pause r)
            \<and> StartsAfterPreviousEnd (Pause r) \<and> (\<forall>p\<in>set (Pause r). WithinRecord r p))"
proof -
  have s0: "0 \<le> Record.Start r"
    using assms by (simp add: Before_def NoTime_def)
  show ?thesis
  proof (cases "EndAbsentOrAfterStart r")
    case False
    then show ?thesis by (auto simp: Check_def EndAbsentOrAfterStart_def)
  next
    case True
    then have e0: "\<not> IsZero (Record.End r) \<Longrightarrow> 0 \<le> Record.End r"
      using s0 by (auto simp: EndAbsentOrAfterStart_def Before_def)
    have within: "(\<forall>p\<in>set (Pause r). \<not> Before (Pause.Start p) (Record.Start r)
          \<and> (\<not> IsZero (Record.End r) \<longrightarrow> \<not> After (Pause.End p) (Record.End r)))
        = (\<forall>p\<in>set (Pause r). WithinRecord r p)"
      using e0 by (auto simp: WithinRecord_def HasEnded_def After_def IsZero_def)
    have chk: "Check r = None \<longleftrightarrow> Check_loop r NoTime NoTime (Pause r) = None"
      using True by (auto simp: Check_def EndAbsentOrAfterStart_def)
    show ?thesis
    proof (cases "\<forall>p\<in>set (Pause r). WithinRecord r p")
      case False
      then have "Check_loop r NoTime NoTime (Pause r) \<noteq> None"
        unfolding Check_loop_None within by blast
      then show ?thesis
        using False chk by auto
    next
      case w: True
      then have pos: "\<forall>p\<in>set (Pause r). 0 \<le> Pause.Start p"
        using s0 by (auto simp: WithinRecord_def Before_def)
      then have hd0: "Pause r \<noteq> [] \<Longrightarrow> \<not> After NoTime (Pause.Start (hd (Pause r)))"
        using hd_in_set [of "Pause r"] by (fastforce simp: After_def NoTime_def)
      have "Check_loop r NoTime NoTime (Pause r) = None
              \<longleftrightarrow> OrderedByStart (Pause r) \<and> StartsAfterPreviousEnd (Pause r)"
        unfolding Check_loop_None list_all_zip_conj within
        using w hd0 previous_end_guard [OF pos] OrderedByStart_adjacent [of "Pause r"]
        by blast
      then show ?thesis using True w chk by auto
    qed
  qed
qed

theorem Check_succeeds_iff_witness:
  "\<not> Before (Record.Start same_start_record) NoTime
   \<and> Check same_start_record = None
   \<and> EndAbsentOrAfterStart same_start_record
   \<and> OrderedByStart (Pause same_start_record)
   \<and> StartsAfterPreviousEnd (Pause same_start_record)
   \<and> list_all (WithinRecord same_start_record) (Pause same_start_record)"
proof -
  have h: "\<not> Before (Record.Start same_start_record) NoTime"
    by (simp add: same_start_record_def Before_def NoTime_def clock_def)
  have c: "Check same_start_record = None"
    by (simp add: same_start_record_def Check_def IsZero_def NoTime_def Before_def After_def
        clock_def)
  show ?thesis
    using h c Check_succeeds_iff [OF h] unfolding list_all_iff by blast
qed

theorem Check_same_start_counterexample:
  "Check same_start_record = None \<and> \<not> StrictlyOrderedByStart (Pause same_start_record)"
  by (simp add: same_start_record_def Check_def StrictlyOrderedByStart_def
      IsZero_def NoTime_def Before_def After_def clock_def)

subsection \<open>The reverse scan and the loading of a record\<close>

lemma then_scan_errors [simp]:
  "then_scan (map Inr rs) rest = map Inr rs @ rest"
  by (simp add: then_scan_def list_ex_iff)

lemma then_scan_Nil [simp]: "then_scan results [] = results"
  by (simp add: then_scan_def)


lemma then_scan_error [simp]: "then_scan [Inl err] rest = [Inl err]"
  by (simp add: then_scan_def)



















lemma lookup_below_dir:
  "lookup (k # q) n = Some x \<Longrightarrow> IsDir n"
  by (cases n) simp_all






















lemma lookup_rest_is_dir:
  assumes "lookup q n = Some x" and "q \<noteq> []"
  shows "IsDir n"
  using assms by (cases q) (auto dest: lookup_below_dir)
















text \<open>
  C6. A record file that exists and that the process may not read: \<^verbatim>\<open>os.ReadFile\<close> fails
  with a \<^verbatim>\<open>*os.PathError\<close> for the permission, and LoadRecord turns every
  \<^verbatim>\<open>*os.PathError\<close> into ErrRecordNotFound.
\<close>

theorem LoadRecord_unreadable_is_NotFound:
  "RecordPath example_env (dayA + clock 9 0) = [''2023'', ''01'', ''02'', ''09-00.trk'']
   \<and> lookup [''2023'', ''01'', ''02'', ''09-00.trk''] unreadable_store = Some Unreadable
   \<and> os_ReadFile unreadable_store [''2023'', ''01'', ''02'', ''09-00.trk'']
       = Inl (PathError ''open'' EACCES)
   \<and> LoadRecord example_env unreadable_store (dayA + clock 9 0) = Inl ErrRecordNotFound"
  by (simp add: example_env_def unreadable_store_def os_ReadFile_def LoadRecord_def
      dayA_def dayB_def clock_def)

subsection \<open>Deleting a record\<close>

lemma map_of_remove_name:
  "map_of (filter (\<lambda>e. fst e \<noteq> name) entries) k =
     (if k = name then None else map_of entries k)"
  by (induction entries) auto

lemma map_of_remove_below:
  "map_of (map (\<lambda>e. if fst e = name then (fst e, f (snd e)) else e) entries) k =
     (if k = name then map_option f (map_of entries name) else map_of entries k)"
  by (induction entries) auto

lemma lookup_below_file:
  "\<not> IsDir n \<Longrightarrow> q \<noteq> [] \<Longrightarrow> lookup q n = None"
  by (cases n; cases q) auto

lemma lookup_append:
  "lookup (p @ q) fs = (case lookup p fs of None \<Rightarrow> None | Some n \<Rightarrow> lookup q n)"
proof (induction p arbitrary: fs)
  case Nil
  then show ?case by simp
next
  case (Cons name p)
  then show ?case by (cases fs) (auto split: option.splits)
qed

lemma remove_not_dir:
  "\<not> IsDir n \<Longrightarrow> remove p n = n"
  by (cases n; cases p) auto

lemma remove_Dir_Cons:
  "p \<noteq> [] \<Longrightarrow> remove (name # p) (Dir entries) =
     Dir (map (\<lambda>e. if fst e = name then (fst e, remove p (snd e)) else e) entries)"
  by (cases p) auto

lemma lookup_remove:
  "p \<noteq> [] \<Longrightarrow>
     lookup q (remove p fs) =
       (if take (length p) q = p then None
        else if take (length q) p = q then map_option (remove (drop (length q) p)) (lookup q fs)
        else lookup q fs)"
proof (induction p arbitrary: q fs)
  case Nil
  then show ?case by simp
next
  case (Cons name p)
  show ?case
  proof (cases "IsDir fs")
    case False
    then show ?thesis
      using lookup_below_file [OF False, of q]
      by (cases q) (auto simp: remove_not_dir)
  next
    case True
    then obtain entries where fs: "fs = Dir entries"
      by (cases fs) auto
    show ?thesis
    proof (cases q)
      case Nil
      then show ?thesis by simp
    next
      case q: (Cons k q')
      show ?thesis
      proof (cases "p = []")
        case True
        then show ?thesis
          using fs q by (auto simp: map_of_remove_name split: option.splits)
      next
        case False
        note ih = Cons.IH [OF False]
        show ?thesis
        proof (cases "k = name")
          case False
          then show ?thesis
            using fs q \<open>p \<noteq> []\<close> by (simp add: remove_Dir_Cons map_of_remove_below)
        next
          case True
          then show ?thesis
            using fs q \<open>p \<noteq> []\<close> ih [of q']
            by (cases "map_of entries name")
               (simp_all add: remove_Dir_Cons map_of_remove_below)
        qed
      qed
    qed
  qed
qed

lemma kind_of_remove:
  "kind_of (remove p n) = kind_of n"
  by (induction p n rule: remove.induct) auto

lemma kind_at_remove:
  "p \<noteq> [] \<Longrightarrow>
     kind_at (remove p fs) q = (if take (length p) q = p then None else kind_at fs q)"
  by (simp add: kind_at_def lookup_remove option.map_comp comp_def kind_of_remove)

lemma no_other_lookup:
  assumes "\<not> has_other fs p name" and "g \<noteq> name"
  shows "lookup (p @ g # r) fs = None"
proof (cases "lookup p fs")
  case None
  then show ?thesis by (simp add: lookup_append)
next
  case (Some n)
  show ?thesis
  proof (cases n)
    case (Dir entries)
    then have "\<forall>e\<in>set entries. fst e = name"
      using assms(1) Some by (simp add: has_other_def list_ex_iff)
    then have "map_of entries g = None"
      using assms(2) by (force simp: map_of_eq_None_iff)
    then show ?thesis using Some Dir by (simp add: lookup_append)
  qed (use Some in \<open>simp_all add: lookup_append\<close>)
qed

lemma parent_of_existing:
  assumes "lookup (q @ [name]) fs = Some n"
  obtains entries where "lookup q fs = Some (Dir entries)" and "map_of entries name = Some n"
proof -
  from assms obtain nd where nd: "lookup q fs = Some nd" and ch: "lookup [name] nd = Some n"
    by (auto simp: lookup_append split: option.splits)
  from ch obtain entries where "nd = Dir entries" and "map_of entries name = Some n"
    by (cases nd) (auto split: option.splits)
  with nd that show ?thesis by blast
qed

lemma DirIsEmpty_after_remove:
  assumes "lookup (q @ [name]) fs = Some n"
  shows "fs_DirIsEmpty (remove (q @ [name]) fs) q = Inr (\<not> has_other fs q name)"
proof -
  from assms obtain entries where q: "lookup q fs = Some (Dir entries)"
    by (rule parent_of_existing)
  have "lookup q (remove (q @ [name]) fs) = Some (Dir (filter (\<lambda>e. fst e \<noteq> name) entries))"
    using q by (simp add: lookup_remove)
  moreover have "(filter (\<lambda>e. fst e \<noteq> name) entries = []) = (\<not> list_ex (\<lambda>e. fst e \<noteq> name) entries)"
    by (simp add: filter_empty_conv list_ex_iff)
  ultimately show ?thesis
    using q by (simp add: fs_DirIsEmpty_def has_other_def)
qed

lemma os_Remove_empty_dir:
  assumes "fs_DirIsEmpty fs p = Inr True"
  shows "os_Remove fs p = (None, remove p fs)" and "lookup p fs = Some (Dir [])"
proof -
  show l: "lookup p fs = Some (Dir [])"
    using assms by (auto simp: fs_DirIsEmpty_def split: option.splits node.splits)
  show "os_Remove fs p = (None, remove p fs)"
    by (simp add: os_Remove_def l)
qed

lemma list_ex_name_below:
  "list_ex (\<lambda>e. fst e \<noteq> name) (map (\<lambda>e. if fst e = a then (fst e, f (snd e)) else e) entries)
     = list_ex (\<lambda>e. fst e \<noteq> name) entries"
  by (induction entries) auto

lemma has_other_remove_deeper:
  assumes "take (length q) p = q" and "length q + 2 \<le> length p"
  shows "has_other (remove p fs) q name = has_other fs q name"
proof -
  have "2 \<le> length (drop (length q) p)"
    using assms(2) by simp
  then obtain a b r where d: "drop (length q) p = a # b # r"
    by (cases "drop (length q) p"; simp) (rename_tac x xs, case_tac xs, simp_all)
  have ne: "p \<noteq> []" "take (length p) q \<noteq> p"
    using assms(2) by auto
  have "lookup q (remove p fs) = map_option (remove (a # b # r)) (lookup q fs)"
    using ne assms(1) d by (simp add: lookup_remove)
  then show ?thesis
    by (cases "lookup q fs"; simp add: has_other_def)
       (rename_tac n, case_tac n, simp_all add: list_ex_name_below)
qed

lemma DeleteRecord_result:
  assumes path: "RecordPath E (Record.Start record) = [y, m, d, f]"
    and isfile: "lookup [y, m, d, f] fs = Some n" and notdir: "\<not> IsDir n"
  shows "DeleteRecord E fs record =
     (None,
      if has_other fs [y, m, d] f then remove [y, m, d, f] fs
      else if has_other fs [y, m] d then remove [y, m, d] (remove [y, m, d, f] fs)
      else if has_other fs [y] m
        then remove [y, m] (remove [y, m, d] (remove [y, m, d, f] fs))
      else remove [y] (remove [y, m] (remove [y, m, d] (remove [y, m, d, f] fs))))"
proof -
  let ?fs1 = "remove [y, m, d, f] fs"
  let ?fs2 = "remove [y, m, d] ?fs1"
  let ?fs3 = "remove [y, m] ?fs2"
  have ex: "fs_FileExists fs [y, m, d, f]"
    using isfile by (simp add: fs_FileExists_def)
  have r1: "os_Remove fs [y, m, d, f] = (None, ?fs1)"
    using isfile notdir by (cases n) (simp_all add: os_Remove_def)
  have e1: "fs_DirIsEmpty ?fs1 [y, m, d] = Inr (\<not> has_other fs [y, m, d] f)"
    using DirIsEmpty_after_remove [of "[y, m, d]" f fs] isfile by simp
  note defs = DeleteRecord_def path filepath_Dir_def Let_def ex r1
  show ?thesis
  proof (cases "has_other fs [y, m, d] f")
    case True
    then show ?thesis by (simp add: defs e1)
  next
    case hd: False
    then have d1: "fs_DirIsEmpty ?fs1 [y, m, d] = Inr True"
      using e1 by simp
    note rm2 = os_Remove_empty_dir [OF d1]
    have e2: "fs_DirIsEmpty ?fs2 [y, m] = Inr (\<not> has_other fs [y, m] d)"
      using DirIsEmpty_after_remove [of "[y, m]" d ?fs1] rm2(2)
        has_other_remove_deeper [of "[y, m]" "[y, m, d, f]" fs d]
      by simp
    show ?thesis
    proof (cases "has_other fs [y, m] d")
      case True
      then show ?thesis using hd by (simp add: defs d1 rm2(1) e2)
    next
      case hm: False
      then have d2: "fs_DirIsEmpty ?fs2 [y, m] = Inr True"
        using e2 by simp
      note rm3 = os_Remove_empty_dir [OF d2]
      have "has_other ?fs2 [y] m = has_other ?fs1 [y] m"
        using has_other_remove_deeper [of "[y]" "[y, m, d]" ?fs1 m] by simp
      also have "\<dots> = has_other fs [y] m"
        using has_other_remove_deeper [of "[y]" "[y, m, d, f]" fs m] by simp
      finally have e3: "fs_DirIsEmpty ?fs3 [y] = Inr (\<not> has_other fs [y] m)"
        using DirIsEmpty_after_remove [of "[y]" m ?fs2] rm3(2) by simp
      show ?thesis
      proof (cases "has_other fs [y] m")
        case True
        then show ?thesis using hd hm by (simp add: defs d1 rm2(1) d2 rm3(1) e3)
      next
        case hy: False
        then have d3: "fs_DirIsEmpty ?fs3 [y] = Inr True"
          using e3 by simp
        note rm4 = os_Remove_empty_dir [OF d3]
        show ?thesis using hd hm hy by (simp add: defs d1 rm2(1) d2 rm3(1) d3 rm4(1))
      qed
    qed
  qed
qed

lemma nothing_below_file:
  assumes "lookup p fs = Some n" and "\<not> IsDir n" and "take (length p) q = p" and "q \<noteq> p"
  shows "kind_at fs q = None"
proof -
  have q: "q = p @ drop (length p) q"
    using assms(3) by (metis append_take_drop_id)
  then have "drop (length p) q \<noteq> []"
    using assms(4) by auto
  then have "lookup (drop (length p) q) n = None"
    using assms(2) by (rule lookup_below_file [rotated])
  then have "lookup (p @ drop (length p) q) fs = None"
    using assms(1) by (simp add: lookup_append)
  then show ?thesis
    using q by (simp add: kind_at_def)
qed

lemma nothing_else_below:
  assumes "\<not> has_other fs p name" and "take (length p) q = p" and "q \<noteq> p"
    and "take (Suc (length p)) q \<noteq> p @ [name]"
  shows "kind_at fs q = None"
proof -
  have q: "q = p @ drop (length p) q"
    using assms(2) by (metis append_take_drop_id)
  then obtain g r where gr: "drop (length p) q = g # r"
    using assms(3) by (cases "drop (length p) q") auto
  have "take (Suc (length p)) (p @ g # r) = p @ [g]"
    by simp
  then have "g \<noteq> name"
    using assms(4) q gr by metis
  then have "lookup (p @ g # r) fs = None"
    using assms(1) by (rule no_other_lookup [rotated])
  then show ?thesis
    using q gr by (simp add: kind_at_def)
qed

lemma ancestors_are_directories:
  assumes "lookup [y, m, d, f] fs = Some n"
  shows "kind_at fs [y, m, d] = Some IsDirectory" and "kind_at fs [y, m] = Some IsDirectory"
    and "kind_at fs [y] = Some IsDirectory"
proof -
  obtain e3 where l3: "lookup [y, m, d] fs = Some (Dir e3)"
    using parent_of_existing [of "[y, m, d]" f fs n] assms by auto
  then obtain e2 where l2: "lookup [y, m] fs = Some (Dir e2)"
    using parent_of_existing [of "[y, m]" d fs "Dir e3"] by auto
  then obtain e1 where l1: "lookup [y] fs = Some (Dir e1)"
    using parent_of_existing [of "[y]" m fs "Dir e2"] by auto
  show "kind_at fs [y, m, d] = Some IsDirectory" "kind_at fs [y, m] = Some IsDirectory"
    "kind_at fs [y] = Some IsDirectory"
    using l1 l2 l3 by (simp_all add: kind_at_def)
qed

lemma has_other_sibling:
  assumes "lookup (p @ [name']) fs = Some n" and "name' \<noteq> name"
  shows "has_other fs p name"
proof -
  from assms(1) obtain entries where p: "lookup p fs = Some (Dir entries)"
    and e: "map_of entries name' = Some n"
    by (rule parent_of_existing)
  from e have "(name', n) \<in> set entries"
    by (rule map_of_SomeD)
  then show ?thesis
    using p assms(2) by (force simp: has_other_def list_ex_iff)
qed

lemma DeleteRecord_kinds:
  assumes path: "RecordPath E (Record.Start record) = [y, m, d, f]"
    and isfile: "lookup [y, m, d, f] fs = Some n" and notdir: "\<not> IsDir n"
  shows "kind_at (snd (DeleteRecord E fs record)) q =
     (if q = [y, m, d, f] then None
      else if q = [y, m, d]
        then (if has_other fs [y, m, d] f then Some IsDirectory else None)
      else if q = [y, m]
        then (if has_other fs [y, m, d] f \<or> has_other fs [y, m] d then Some IsDirectory
              else None)
      else if q = [y]
        then (if has_other fs [y, m, d] f \<or> has_other fs [y, m] d \<or> has_other fs [y] m
              then Some IsDirectory else None)
      else kind_at fs q)"
proof -
  note res = DeleteRecord_result [OF path isfile notdir]
  note anc = ancestors_are_directories [OF isfile]
  have p43: "take 3 q = [y, m, d]" if "take 4 q = [y, m, d, f]"
  proof -
    have "take 3 (take 4 q) = [y, m, d]" using that by simp
    then show ?thesis by simp
  qed
  have p32: "take 2 q = [y, m]" if "take 3 q = [y, m, d]"
  proof -
    have "take 2 (take 3 q) = [y, m]" using that by simp
    then show ?thesis by simp
  qed
  have p21: "take 1 q = [y]" if "take 2 q = [y, m]"
  proof -
    have "take 1 (take 2 q) = [y]" using that by simp
    then show ?thesis by simp
  qed
  have b0: "kind_at fs q = None" if "take 4 q = [y, m, d, f]" "q \<noteq> [y, m, d, f]"
    using nothing_below_file [OF isfile notdir, of q] that by (simp add: eval_nat_numeral)
  have b1: "kind_at fs q = None"
    if "\<not> has_other fs [y, m, d] f" "take 3 q = [y, m, d]" "q \<noteq> [y, m, d]"
      "take 4 q \<noteq> [y, m, d, f]"
    using nothing_else_below [of fs "[y, m, d]" f q] that by (simp add: eval_nat_numeral)
  have b2: "kind_at fs q = None"
    if "\<not> has_other fs [y, m] d" "take 2 q = [y, m]" "q \<noteq> [y, m]" "take 3 q \<noteq> [y, m, d]"
    using nothing_else_below [of fs "[y, m]" d q] that by (simp add: eval_nat_numeral)
  have b3: "kind_at fs q = None"
    if "\<not> has_other fs [y] m" "take 1 q = [y]" "q \<noteq> [y]" "take 2 q \<noteq> [y, m]"
    using nothing_else_below [of fs "[y]" m q] that by (simp add: eval_nat_numeral)
  have t4: "q = [y, m, d, f] \<Longrightarrow> take 4 q = [y, m, d, f]"
    and t3: "q = [y, m, d] \<Longrightarrow> take 3 q = [y, m, d] \<and> take 4 q \<noteq> [y, m, d, f]"
    and t2: "q = [y, m] \<Longrightarrow> take 2 q = [y, m] \<and> take 3 q \<noteq> [y, m, d]"
    and t1: "q = [y] \<Longrightarrow> take 1 q = [y] \<and> take 2 q \<noteq> [y, m]"
    by auto
  have g0: "kind_at fs q = None" if "take 4 q = [y, m, d, f]" "q \<noteq> [y, m, d, f]"
    using that by (rule b0)
  have g1: "kind_at fs q = None"
    if "\<not> has_other fs [y, m, d] f" "take 3 q = [y, m, d]" "q \<noteq> [y, m, d]" "q \<noteq> [y, m, d, f]"
    using that b0 b1 by (cases "take 4 q = [y, m, d, f]") blast+
  have g2: "kind_at fs q = None"
    if "\<not> has_other fs [y, m, d] f" "\<not> has_other fs [y, m] d" "take 2 q = [y, m]"
      "q \<noteq> [y, m]" "q \<noteq> [y, m, d]" "q \<noteq> [y, m, d, f]"
    using that g1 b2 by (cases "take 3 q = [y, m, d]") blast+
  have g3: "kind_at fs q = None"
    if "\<not> has_other fs [y, m, d] f" "\<not> has_other fs [y, m] d" "\<not> has_other fs [y] m"
      "take 1 q = [y]" "q \<noteq> [y]" "q \<noteq> [y, m]" "q \<noteq> [y, m, d]" "q \<noteq> [y, m, d, f]"
    using that g2 b3 by (cases "take 2 q = [y, m]") blast+
  have n4: "take 4 q \<noteq> [y, m, d, f]" if "take 3 q \<noteq> [y, m, d]"
    using that p43 by blast
  have n3: "take 3 q \<noteq> [y, m, d]" if "take 2 q \<noteq> [y, m]"
    using that p32 by blast
  have n2: "take 2 q \<noteq> [y, m]" if "take 1 q \<noteq> [y]"
    using that p21 by blast
  consider (q4) "q = [y, m, d, f]" | (q3) "q = [y, m, d]" | (q2) "q = [y, m]" | (q1) "q = [y]"
    | (other) "q \<noteq> [y, m, d, f]" "q \<noteq> [y, m, d]" "q \<noteq> [y, m]" "q \<noteq> [y]"
    by blast
  then show ?thesis
  proof cases
    case q4
    then show ?thesis
      by (simp add: res kind_at_remove)
  next
    case q3
    then show ?thesis
      using anc(1) by (simp add: res kind_at_remove)
  next
    case q2
    then show ?thesis
      using anc(2) by (simp add: res kind_at_remove)
  next
    case q1
    then show ?thesis
      using anc(3) by (simp add: res kind_at_remove)
  next
    case other
    have goal: "kind_at (snd (DeleteRecord E fs record)) q = kind_at fs q"
    proof (cases "has_other fs [y, m, d] f")
      case True
      then have "kind_at (snd (DeleteRecord E fs record)) q =
          (if take 4 q = [y, m, d, f] then None else kind_at fs q)"
        by (simp add: res kind_at_remove eval_nat_numeral)
      then show ?thesis using g0 other(1) by simp
    next
      case hd: False
      show ?thesis
      proof (cases "has_other fs [y, m] d")
        case True
        then have "kind_at (snd (DeleteRecord E fs record)) q =
            (if take 3 q = [y, m, d] then None else kind_at fs q)"
          using hd n4 by (simp add: res kind_at_remove eval_nat_numeral)
        then show ?thesis using g1 [OF hd] other by simp
      next
        case hm: False
        show ?thesis
        proof (cases "has_other fs [y] m")
          case True
          then have "kind_at (snd (DeleteRecord E fs record)) q =
              (if take 2 q = [y, m] then None else kind_at fs q)"
            using hd hm n4 n3 by (simp add: res kind_at_remove eval_nat_numeral)
          then show ?thesis using g2 [OF hd hm] other by simp
        next
          case hy: False
          then have "kind_at (snd (DeleteRecord E fs record)) q =
              (if take 1 q = [y] then None else kind_at fs q)"
            using hd hm n4 n3 n2 by (simp add: res kind_at_remove eval_nat_numeral)
          then show ?thesis using g3 [OF hd hm hy] other by simp
        qed
      qed
    qed
    then show ?thesis using other by simp
  qed
qed

text \<open>
  C7. DeleteRecord on a record whose path is \<open>y/m/d/f\<close>. When nothing is at the path it
  fails with the error that the record does not exist and the store is unchanged. When a
  file is at the path it succeeds, and afterwards: the file is gone; the day directory is
  gone exactly when it had no other entry; the month directory is gone exactly when also
  it had no other entry than the day; the year directory is gone exactly when also it had
  no other entry than the month; every other path holds what it held. A sibling record in
  the same month keeps the month and the year directory.
\<close>

theorem DeleteRecord_cascade:
  assumes "RecordPath E (Record.Start record) = [y, m, d, f]"
  shows "(lookup [y, m, d, f] fs = None
            \<longrightarrow> DeleteRecord E fs record = (Some ErrRecordDoesNotExist, fs))
       \<and> (lookup [y, m, d, f] fs = Some n \<and> \<not> IsDir n
            \<longrightarrow> fst (DeleteRecord E fs record) = None
              \<and> kind_at (snd (DeleteRecord E fs record)) q =
                  (if q = [y, m, d, f] then None
                   else if q = [y, m, d]
                     then (if has_other fs [y, m, d] f then Some IsDirectory else None)
                   else if q = [y, m]
                     then (if has_other fs [y, m, d] f \<or> has_other fs [y, m] d
                           then Some IsDirectory else None)
                   else if q = [y]
                     then (if has_other fs [y, m, d] f \<or> has_other fs [y, m] d
                              \<or> has_other fs [y] m
                           then Some IsDirectory else None)
                   else kind_at fs q)
              \<and> (lookup [y, m, d', f'] fs = Some n' \<and> (d' \<noteq> d \<or> f' \<noteq> f)
                    \<longrightarrow> kind_at (snd (DeleteRecord E fs record)) [y, m] = Some IsDirectory
                      \<and> kind_at (snd (DeleteRecord E fs record)) [y] = Some IsDirectory))"
proof -
  have absent: "DeleteRecord E fs record = (Some ErrRecordDoesNotExist, fs)"
    if "lookup [y, m, d, f] fs = None"
    using that assms by (simp add: DeleteRecord_def fs_FileExists_def)
  have present: "fst (DeleteRecord E fs record) = None"
    if "lookup [y, m, d, f] fs = Some n" "\<not> IsDir n"
    using DeleteRecord_result [OF assms that] by simp
  have sibling: "kind_at (snd (DeleteRecord E fs record)) [y, m] = Some IsDirectory
      \<and> kind_at (snd (DeleteRecord E fs record)) [y] = Some IsDirectory"
    if isfile: "lookup [y, m, d, f] fs = Some n" and notdir: "\<not> IsDir n"
      and sib: "lookup [y, m, d', f'] fs = Some n'" and ne: "d' \<noteq> d \<or> f' \<noteq> f"
  proof -
    have "has_other fs [y, m, d] f \<or> has_other fs [y, m] d"
    proof (cases "d' = d")
      case True
      then show ?thesis
        using has_other_sibling [of "[y, m, d]" f' fs n' f] sib ne by simp
    next
      case False
      obtain entries where "lookup [y, m, d'] fs = Some (Dir entries)"
        using parent_of_existing [of "[y, m, d']" f' fs n'] sib by auto
      then show ?thesis
        using has_other_sibling [of "[y, m]" d' fs "Dir entries" d] False by simp
    qed
    then show ?thesis
      using DeleteRecord_kinds [OF assms isfile notdir, of "[y, m]"]
        DeleteRecord_kinds [OF assms isfile notdir, of "[y]"]
      by auto
  qed
  show ?thesis
    using absent present sibling DeleteRecord_kinds [OF assms, of fs n q] by blast
qed

theorem DeleteRecord_cascade_witness:
  "(RecordPath example_env (Record.Start (example_record ''work'' (dayB + clock 9 0)))
      = [''2023'', ''02'', ''05'', ''09-00.trk'']
    \<and> lookup [''2023'', ''02'', ''05'', ''09-00.trk''] example_store = Some (File ''work'')
    \<and> fst (DeleteRecord example_env example_store (example_record ''work'' (dayB + clock 9 0)))
        = None
    \<and> kind_at (snd (DeleteRecord example_env example_store
                       (example_record ''work'' (dayB + clock 9 0))))
         [''2023'', ''02''] = None
    \<and> kind_at (snd (DeleteRecord example_env example_store
                       (example_record ''work'' (dayB + clock 9 0))))
         [''2023''] = Some IsDirectory)
   \<and> (RecordPath example_env (Record.Start (example_record ''work'' (dayA + clock 9 0)))
      = [''2023'', ''01'', ''02'', ''09-00.trk'']
    \<and> lookup [''2023'', ''01'', ''02'', ''09-00.trk''] example_store = Some (File ''work'')
    \<and> lookup [''2023'', ''01'', ''02'', ''14-00.trk''] example_store = Some (File ''home'')
    \<and> kind_at (snd (DeleteRecord example_env example_store
                       (example_record ''work'' (dayA + clock 9 0))))
         [''2023'', ''01''] = Some IsDirectory)
   \<and> (RecordPath example_env (Record.Start (example_record ''work'' (dayA + clock 14 0)))
      = [''2023'', ''01'', ''02'', ''14-00.trk'']
    \<and> lookup [''2023'', ''01'', ''02'', ''14-00.trk''] unreadable_store = None
    \<and> DeleteRecord example_env unreadable_store (example_record ''work'' (dayA + clock 14 0))
        = (Some ErrRecordDoesNotExist, unreadable_store))"
proof -
  have pB: "RecordPath example_env (Record.Start (example_record ''work'' (dayB + clock 9 0)))
      = [''2023'', ''02'', ''05'', ''09-00.trk'']"
    by (simp add: example_env_def example_record_def dayA_def dayB_def clock_def)
  have pA: "RecordPath example_env (Record.Start (example_record ''work'' (dayA + clock 9 0)))
      = [''2023'', ''01'', ''02'', ''09-00.trk'']"
    by (simp add: example_env_def example_record_def dayA_def dayB_def clock_def)
  have pC: "RecordPath example_env (Record.Start (example_record ''work'' (dayA + clock 14 0)))
      = [''2023'', ''01'', ''02'', ''14-00.trk'']"
    by (simp add: example_env_def example_record_def dayA_def dayB_def clock_def)
  have lB: "lookup [''2023'', ''02'', ''05'', ''09-00.trk''] example_store = Some (File ''work'')"
    and lA: "lookup [''2023'', ''01'', ''02'', ''09-00.trk''] example_store = Some (File ''work'')"
    and lS: "lookup [''2023'', ''01'', ''02'', ''14-00.trk''] example_store = Some (File ''home'')"
    and lN: "lookup [''2023'', ''01'', ''02'', ''14-00.trk''] unreadable_store = None"
    by (simp_all add: example_store_def unreadable_store_def)
  have hB: "\<not> has_other example_store [''2023'', ''02'', ''05''] ''09-00.trk''"
    "\<not> has_other example_store [''2023'', ''02''] ''05''"
    "has_other example_store [''2023''] ''02''"
    by (simp_all add: has_other_def example_store_def)
  have kB: "fst (DeleteRecord example_env example_store
                   (example_record ''work'' (dayB + clock 9 0))) = None
    \<and> kind_at (snd (DeleteRecord example_env example_store
                       (example_record ''work'' (dayB + clock 9 0))))
         [''2023'', ''02''] = None"
    using DeleteRecord_cascade [OF pB, of example_store "File ''work''" "[''2023'', ''02'']"] lB hB
    by simp
  have kB': "kind_at (snd (DeleteRecord example_env example_store
                       (example_record ''work'' (dayB + clock 9 0))))
         [''2023''] = Some IsDirectory"
    using DeleteRecord_cascade [OF pB, of example_store "File ''work''" "[''2023'']"] lB hB
    by simp
  have kA: "kind_at (snd (DeleteRecord example_env example_store
                       (example_record ''work'' (dayA + clock 9 0))))
         [''2023'', ''01''] = Some IsDirectory"
    using DeleteRecord_cascade [OF pA, of example_store "File ''work''" "[]" "''02''" "''14-00.trk''"
        "File ''home''"] lA lS
    by simp
  have kN: "DeleteRecord example_env unreadable_store (example_record ''work'' (dayA + clock 14 0))
        = (Some ErrRecordDoesNotExist, unreadable_store)"
    using DeleteRecord_cascade [OF pC, of unreadable_store] lN by simp
  show ?thesis
    using pA pB pC lA lB lS lN kB kB' kA kN by simp
qed

subsection \<open>Filters and pauses\<close>

text \<open>
  C8. The time filter with both bounds zero matches every record. For an open record the
  outcome is a function of the start of the record and the bounds alone; for a closed
  record the end is compared with the lower bound and the start with the upper bound.
\<close>

theorem FilterByTime_bounds:
  "FilterByTime NoTime NoTime r
   \<and> (IsZero (Record.End r) \<and> IsZero (Record.End r') \<and> Record.Start r = Record.Start r'
        \<longrightarrow> FilterByTime start end r = FilterByTime start end r')
   \<and> (IsZero (Record.End r)
        \<longrightarrow> FilterByTime start end r =
              ((IsZero start \<or> After (Record.Start r) start)
               \<and> (IsZero end \<or> Before (Record.Start r) end)))
   \<and> (\<not> IsZero (Record.End r)
        \<longrightarrow> FilterByTime start end r =
              ((IsZero start \<or> After (Record.End r) start)
               \<and> (IsZero end \<or> Before (Record.Start r) end)))"
  by (simp add: FilterByTime_def NoTime_def IsZero_def)

theorem FilterByTime_bounds_witness:
  "(IsZero (Record.End paused_record) \<and> IsZero (Record.End resumed_record)
    \<and> Record.Start paused_record = Record.Start resumed_record
    \<and> FilterByTime (clock 8 0) (clock 10 0) paused_record
    \<and> FilterByTime (clock 8 0) (clock 10 0) resumed_record)
   \<and> (\<not> IsZero (Record.End closed_record)
    \<and> FilterByTime (clock 10 0) (clock 12 0) closed_record
    \<and> \<not> FilterByTime (clock 11 0) (clock 12 0) closed_record)"
proof -
  have a: "IsZero (Record.End paused_record)" "IsZero (Record.End resumed_record)"
    "Record.Start paused_record = clock 9 0" "Record.Start resumed_record = clock 9 0"
    by (simp_all add: paused_record_def resumed_record_def IsZero_def NoTime_def)
  have b: "\<not> IsZero (Record.End closed_record)"
    "Record.Start closed_record = clock 9 0" "Record.End closed_record = clock 11 0"
    by (simp_all add: closed_record_def IsZero_def clock_def)
  have c: "FilterByTime (clock 8 0) (clock 10 0) paused_record"
    using a FilterByTime_bounds [of paused_record paused_record "clock 8 0" "clock 10 0"]
    by (simp add: After_def Before_def clock_def)
  have d: "FilterByTime (clock 8 0) (clock 10 0) resumed_record"
    using a c FilterByTime_bounds [of paused_record resumed_record "clock 8 0" "clock 10 0"]
    by metis
  have e: "FilterByTime (clock 10 0) (clock 12 0) closed_record"
    using b FilterByTime_bounds [of closed_record closed_record "clock 10 0" "clock 12 0"]
    by (simp add: After_def Before_def IsZero_def clock_def)
  have f: "\<not> FilterByTime (clock 11 0) (clock 12 0) closed_record"
    using b FilterByTime_bounds [of closed_record closed_record "clock 11 0" "clock 12 0"]
    by (simp add: After_def Before_def IsZero_def clock_def)
  show ?thesis
    using a b c d e f by simp
qed

text \<open>
  C9. A record whose project name is not a key of the snapshot map is compared with the
  zero Project: FilterByArchived(false, m) accepts it and FilterByArchived(true, m)
  rejects it.
\<close>

theorem FilterByArchived_missing_project:
  assumes "map_of projects (Project r) = None"
  shows "FilterByArchived False projects r \<and> \<not> FilterByArchived True projects r"
  using assms by (simp add: FilterByArchived_def index_Project_def zeroProject_def)

theorem FilterByArchived_missing_project_witness:
  "map_of [(''home'', \<lparr>Name = ''home'', Parent = None, Archived = True\<rparr>)] (Project paused_record) = None
   \<and> FilterByArchived False [(''home'', \<lparr>Name = ''home'', Parent = None, Archived = True\<rparr>)] paused_record
   \<and> \<not> FilterByArchived True [(''home'', \<lparr>Name = ''home'', Parent = None, Archived = True\<rparr>)] paused_record"
proof -
  have h: "map_of [(''home'', \<lparr>Name = ''home'', Parent = None, Archived = True\<rparr>)] (Project paused_record) = None"
    by (simp add: paused_record_def)
  show ?thesis
    using h FilterByArchived_missing_project [OF h] by blast
qed

text \<open>
  C10 (amended). For every record whose last pause is open and every pause start \<open>t\<close>
  that is not before the zero time, InsertPause succeeds and appends the new pause: the
  test compares \<open>t\<close> with the zero end of the open pause. The record that results has
  an open pause that is not its last pause.
\<close>

theorem InsertPause_while_paused:
  assumes "IsPaused r" and "\<not> Before start NoTime"
  shows "InsertPause r start end note =
           Inr (r\<lparr>Pause := Pause r @ [\<lparr>Pause.Start = start, Pause.End = end, Pause.Note = note\<rparr>]\<rparr>,
                \<lparr>Pause.Start = start, Pause.End = end, Pause.Note = note\<rparr>)
         \<and> OpenPauseNotLast
             (r\<lparr>Pause := Pause r @ [\<lparr>Pause.Start = start, Pause.End = end, Pause.Note = note\<rparr>]\<rparr>)"
proof -
  have ne: "Pause r \<noteq> []" and op: "IsZero (Pause.End (last (Pause r)))"
    using assms(1) by (auto simp: IsPaused_def last_conv_nth)
  have "\<not> Before start (Pause.End (Pause r ! (length (Pause r) - 1)))"
    using assms op ne by (simp add: IsZero_def Before_def NoTime_def last_conv_nth)
  then have "InsertPause r start end note =
           Inr (r\<lparr>Pause := Pause r @ [\<lparr>Pause.Start = start, Pause.End = end, Pause.Note = note\<rparr>]\<rparr>,
                \<lparr>Pause.Start = start, Pause.End = end, Pause.Note = note\<rparr>)"
    using ne by (simp add: InsertPause_def Let_def)
  moreover have "list_ex (\<lambda>p. IsZero (Pause.End p)) (Pause r)"
    using ne op unfolding list_ex_iff by (meson last_in_set)
  ultimately show ?thesis
    by (simp add: OpenPauseNotLast_def)
qed

theorem InsertPause_while_paused_witness:
  "IsPaused paused_record \<and> \<not> Before (clock 10 30) NoTime
   \<and> InsertPause paused_record (clock 10 30) NoTime [] =
       Inr (paused_record\<lparr>Pause := Pause paused_record
              @ [\<lparr>Pause.Start = clock 10 30, Pause.End = NoTime, Pause.Note = []\<rparr>]\<rparr>,
            \<lparr>Pause.Start = clock 10 30, Pause.End = NoTime, Pause.Note = []\<rparr>)
   \<and> OpenPauseNotLast (paused_record\<lparr>Pause := Pause paused_record
              @ [\<lparr>Pause.Start = clock 10 30, Pause.End = NoTime, Pause.Note = []\<rparr>]\<rparr>)"
proof -
  have a: "IsPaused paused_record"
    by (simp add: IsPaused_def paused_record_def IsZero_def NoTime_def)
  have b: "\<not> Before (clock 10 30) NoTime"
    by (simp add: Before_def NoTime_def clock_def)
  show ?thesis
    using a b InsertPause_while_paused [OF a b, of NoTime "[]"] by blast
qed

theorem InsertPause_before_zero_time_counterexample:
  "IsPaused paused_record
   \<and> InsertPause paused_record (- 1) NoTime [] = Inl ErrPauseBeforePreviousEnd"
  by (simp add: IsPaused_def InsertPause_def paused_record_def IsZero_def NoTime_def
      Before_def clock_def)

end
